theory Spec2Isabelle
  imports Main "HOL-Library.Sublist" "HOL-Library.Word"
begin

section \<open>Byte strings: the functions of Go's \<^verbatim>\<open>strings\<close> package that the code calls\<close>

text \<open>
  A Go string is a sequence of bytes; it is modelled as a \<^typ>\<open>string\<close> (a list of
  8-bit characters). The functions below are the ones the parser, the trie and the engine
  call. \<^verbatim>\<open>strings.Split\<close> is only ever called with a one-byte separator
  (\<^verbatim>\<open>"."\<close>, \<^verbatim>\<open>"|"\<close>, \<^verbatim>\<open>","\<close>), so the separator is a single character here.
\<close>

definition HasPrefix :: "string \<Rightarrow> string \<Rightarrow> bool" where
  "HasPrefix s p = prefix p s"

definition HasSuffix :: "string \<Rightarrow> string \<Rightarrow> bool" where
  "HasSuffix s p = suffix p s"

definition TrimPrefix :: "string \<Rightarrow> string \<Rightarrow> string" where
  "TrimPrefix s p = (if HasPrefix s p then drop (length p) s else s)"

definition TrimSuffix :: "string \<Rightarrow> string \<Rightarrow> string" where
  "TrimSuffix s p = (if HasSuffix s p then take (length s - length p) s else s)"

text \<open>\<^verbatim>\<open>strings.Split(s, sep)\<close> for a one-byte \<^verbatim>\<open>sep\<close>: never the empty list;
  \<^verbatim>\<open>Split("", ".")\<close> is \<^verbatim>\<open>[""]\<close>.\<close>

fun Split :: "string \<Rightarrow> char \<Rightarrow> string list" where
  "Split [] c = [[]]"
| "Split (x # xs) c =
     (if x = c then [] # Split xs c
      else (case Split xs c of
              [] \<Rightarrow> [[x]]
            | w # ws \<Rightarrow> (x # w) # ws))"

text \<open>\<^verbatim>\<open>strings.SplitN(s, sep, 2)\<close> for a one-byte \<^verbatim>\<open>sep\<close>: cut at the first
  separator only.\<close>

fun SplitN2 :: "string \<Rightarrow> char \<Rightarrow> string list" where
  "SplitN2 s c =
     (if c \<in> set s then [takeWhile (\<lambda>x. x \<noteq> c) s, tl (dropWhile (\<lambda>x. x \<noteq> c) s)]
      else [s])"

text \<open>\<^verbatim>\<open>strings.LastIndex(s, sep)\<close> for a one-byte \<^verbatim>\<open>sep\<close>; \<open>None\<close> stands for
  the result \<^verbatim>\<open>-1\<close>.\<close>

fun LastIndex :: "string \<Rightarrow> char \<Rightarrow> nat option" where
  "LastIndex [] c = None"
| "LastIndex (x # xs) c =
     (case LastIndex xs c of
        Some i \<Rightarrow> Some (Suc i)
      | None \<Rightarrow> (if x = c then Some 0 else None))"

text \<open>\<^verbatim>\<open>strings.ReplaceAll(s, old, new)\<close> for a non-empty \<^verbatim>\<open>old\<close>: the
  non-overlapping occurrences, left to right.\<close>

fun ReplaceAll :: "string \<Rightarrow> string \<Rightarrow> string \<Rightarrow> string" where
  "ReplaceAll [] old new = []"
| "ReplaceAll (x # xs) old new =
     (if old \<noteq> [] \<and> prefix old (x # xs)
      then new @ ReplaceAll (drop (length old) (x # xs)) old new
      else x # ReplaceAll xs old new)"

text \<open>
  \<^verbatim>\<open>unicode.IsSpace\<close>: the code points U+0009..U+000D, U+0020, U+0085, U+00A0,
  U+1680, U+2000..U+200A, U+2028, U+2029, U+202F, U+205F and U+3000, here as their UTF-8
  encodings. \<^verbatim>\<open>strings.TrimSpace\<close> removes such runes from both ends and
  \<^verbatim>\<open>strings.Fields\<close> splits around runs of them. A lead byte of one of these encodings
  is never a continuation byte, and Go decodes an invalid byte as a rune of width one, so a
  white-space rune starts exactly where one of these encodings starts.
\<close>

definition spaceRunes :: "string list" where
  "spaceRunes =
     [[CHR 0x09], [CHR 0x0A], [CHR 0x0B], [CHR 0x0C], [CHR 0x0D], [CHR 0x20],
      [CHR 0xC2, CHR 0x85], [CHR 0xC2, CHR 0xA0],
      [CHR 0xE1, CHR 0x9A, CHR 0x80],
      [CHR 0xE2, CHR 0x80, CHR 0x80], [CHR 0xE2, CHR 0x80, CHR 0x81],
      [CHR 0xE2, CHR 0x80, CHR 0x82], [CHR 0xE2, CHR 0x80, CHR 0x83],
      [CHR 0xE2, CHR 0x80, CHR 0x84], [CHR 0xE2, CHR 0x80, CHR 0x85],
      [CHR 0xE2, CHR 0x80, CHR 0x86], [CHR 0xE2, CHR 0x80, CHR 0x87],
      [CHR 0xE2, CHR 0x80, CHR 0x88], [CHR 0xE2, CHR 0x80, CHR 0x89],
      [CHR 0xE2, CHR 0x80, CHR 0x8A],
      [CHR 0xE2, CHR 0x80, CHR 0xA8], [CHR 0xE2, CHR 0x80, CHR 0xA9],
      [CHR 0xE2, CHR 0x80, CHR 0xAF], [CHR 0xE2, CHR 0x81, CHR 0x9F],
      [CHR 0xE3, CHR 0x80, CHR 0x80]]"

text \<open>The white-space rune a string starts with, if any.\<close>

definition leadingSpace :: "string \<Rightarrow> string option" where
  "leadingSpace s = find (\<lambda>w. prefix w s) spaceRunes"

text \<open>The white-space rune a string ends with, if any.\<close>

definition trailingSpace :: "string \<Rightarrow> string option" where
  "trailingSpace s = find (\<lambda>w. suffix w s) spaceRunes"

function TrimLeftSpace :: "string \<Rightarrow> string" where
  "TrimLeftSpace s =
     (case leadingSpace s of
        None \<Rightarrow> s
      | Some w \<Rightarrow> (if w = [] then s else TrimLeftSpace (drop (length w) s)))"
  by pat_completeness auto
termination
proof (relation "measure length")
  show "wf (measure length)" by simp
next
  fix s w :: string
  assume "leadingSpace s = Some w" and "w \<noteq> []"
  then have "prefix w s"
    by (auto simp: leadingSpace_def find_Some_iff)
  with \<open>w \<noteq> []\<close> have "s \<noteq> []" by auto
  with \<open>w \<noteq> []\<close> show "(drop (length w) s, s) \<in> measure length" by simp
qed

function TrimRightSpace :: "string \<Rightarrow> string" where
  "TrimRightSpace s =
     (case trailingSpace s of
        None \<Rightarrow> s
      | Some w \<Rightarrow> (if w = [] then s else TrimRightSpace (take (length s - length w) s)))"
  by pat_completeness auto
termination
proof (relation "measure length")
  show "wf (measure length)" by simp
next
  fix s w :: string
  assume "trailingSpace s = Some w" and "w \<noteq> []"
  then have "suffix w s"
    by (auto simp: trailingSpace_def find_Some_iff)
  with \<open>w \<noteq> []\<close> have "s \<noteq> []" by auto
  with \<open>w \<noteq> []\<close> show "(take (length s - length w) s, s) \<in> measure length" by simp
qed

definition TrimSpace :: "string \<Rightarrow> string" where
  "TrimSpace s = TrimRightSpace (TrimLeftSpace s)"

text \<open>\<^verbatim>\<open>strings.Fields\<close>: the maximal runs of non-space bytes. The accumulator
  \<open>cur\<close> is the field being read, reversed.\<close>

function FieldsLoop :: "string \<Rightarrow> string \<Rightarrow> string list" where
  "FieldsLoop cur s =
     (if s = [] then (if cur = [] then [] else [rev cur])
      else (case leadingSpace s of
              None \<Rightarrow> FieldsLoop (hd s # cur) (tl s)
            | Some w \<Rightarrow>
                (if w = [] then FieldsLoop (hd s # cur) (tl s)
                 else (if cur = [] then [] else [rev cur]) @ FieldsLoop [] (drop (length w) s))))"
  by pat_completeness auto
termination
  by (relation "measure (\<lambda>(cur, s). length s)") auto

definition Fields :: "string \<Rightarrow> string list" where
  "Fields s = FieldsLoop [] s"

text \<open>\<^verbatim>\<open>regexp.QuoteMeta\<close>: a backslash before each of the bytes
  \<^verbatim>\<open>\.+*?()|[]{}^$\<close>.\<close>

definition specialBytes :: "char list" where
  "specialBytes = [CHR 0x5C, CHR ''.'', CHR ''+'', CHR ''*'', CHR ''?'', CHR ''('', CHR '')'',
     CHR ''|'', CHR ''['', CHR '']'', CHR ''{'', CHR ''}'', CHR ''^'', CHR ''$'']"

fun QuoteMeta :: "string \<Rightarrow> string" where
  "QuoteMeta [] = []"
| "QuoteMeta (x # xs) =
     (if x \<in> set specialBytes then CHR 0x5C # x # QuoteMeta xs else x # QuoteMeta xs)"

section \<open>External libraries\<close>

text \<open>
  The packages \<^verbatim>\<open>net/netip\<close>, \<^verbatim>\<open>regexp\<close> and \<^verbatim>\<open>github.com/miekg/dns\<close> are not
  part of the repository, nor is \<^verbatim>\<open>strings.EqualFold\<close> modelled byte by byte. What the code uses of them is a parameter of the model: \<open>'a\<close>
  is the type \<^verbatim>\<open>netip.Addr\<close>, \<open>'p\<close> the type \<^verbatim>\<open>netip.Prefix\<close>; a parse function
  returns \<open>None\<close> where the Go function returns a non-nil error. A compiled regular
  expression is the predicate \<^verbatim>\<open>MatchString\<close> computes.
\<close>

record ('a, 'p) Lib =
  ParseAddr :: "string \<Rightarrow> 'a option"
  ParsePrefix :: "string \<Rightarrow> 'p option"
  Contains :: "'p \<Rightarrow> 'a \<Rightarrow> bool"
  AddrString :: "'a \<Rightarrow> string"
  IsLoopback :: "'a \<Rightarrow> bool"
  IsUnspecified :: "'a \<Rightarrow> bool"
  TypeToString :: "16 word \<Rightarrow> string"
  EqualFold :: "string \<Rightarrow> string \<Rightarrow> bool"

section \<open>Rules (parser/rule.go)\<close>

datatype RuleType =
  RuleTypeUnknown | RuleTypeExact | RuleTypeDistinguish | RuleTypeRegex | RuleTypeGeneric

record Modifiers =
  Client :: "string list"
  DenyAllow :: "string list"
  DNSType :: "string list"
  DNSRewrite :: string
  Important :: bool
  BadFilter :: bool
  ContentType :: "string list"

text \<open>The field \<open>IP\<close> is \<open>None\<close> for the zero \<^verbatim>\<open>netip.Addr\<close>.\<close>

record 'a Rule =
  Text :: string
  Pattern :: string
  Type :: RuleType
  IsWhitelist :: bool
  Modifiers :: Modifiers
  IP :: "'a option"
  GroupID :: int

definition noModifiers :: Modifiers where
  "noModifiers = \<lparr>Client = [], DenyAllow = [], DNSType = [], DNSRewrite = [],
     Important = False, BadFilter = False, ContentType = []\<rparr>"

section \<open>The rule parser (ParseRule, parseModifiers)\<close>

text \<open>
  \<open>ParseError\<close> is the error \<^verbatim>\<open>ParseRule\<close> wraps around a failure of
  \<^verbatim>\<open>parseModifiers\<close>; \<open>SliceBoundsPanic\<close> is the run-time panic of a slice
  expression \<^verbatim>\<open>s[lo:hi]\<close> with \<^verbatim>\<open>lo > hi\<close>.
\<close>

datatype error = ParseError | SliceBoundsPanic

text \<open>One iteration of the loop of \<^verbatim>\<open>parseModifiers\<close>, on one comma-separated part.\<close>

definition parseModifier :: "Modifiers \<Rightarrow> string \<Rightarrow> Modifiers" where
  "parseModifier m p =
     (let kv = SplitN2 p (CHR ''='');
          key = TrimSpace (hd kv);
          val = (if length kv > 1 then kv ! 1 else [])
      in if key = ''client'' then m\<lparr>Client := Client m @ [val]\<rparr>
         else if key = ''denyallow'' then m\<lparr>DenyAllow := DenyAllow m @ [val]\<rparr>
         else if key = ''dnstype'' then m\<lparr>DNSType := DNSType m @ [val]\<rparr>
         else if key = ''dnsrewrite'' then m\<lparr>DNSRewrite := val\<rparr>
         else if key = ''important'' then m\<lparr>Important := True\<rparr>
         else if key = ''badfilter'' then m\<lparr>BadFilter := True\<rparr>
         else m)"

text \<open>\<^verbatim>\<open>parseModifiers\<close> has no statement that returns a non-nil error.\<close>

definition parseModifiers :: "string \<Rightarrow> Modifiers \<Rightarrow> error + Modifiers" where
  "parseModifiers raw m = Inr (foldl parseModifier m (Split raw (CHR '','')))"

text \<open>Step 4 of \<^verbatim>\<open>ParseRule\<close>: a pattern with \<^verbatim>\<open>*\<close> becomes a regular expression.\<close>

definition convertWildcard :: "'a Rule \<Rightarrow> 'a Rule" where
  "convertWildcard rule =
     (if Type rule \<noteq> RuleTypeRegex \<and> CHR ''*'' \<in> set (Pattern rule) then
        (let originalType = Type rule;
             escaped = QuoteMeta (Pattern rule);
             regexPattern = ReplaceAll escaped [CHR 0x5C, CHR ''*''] ''.*''
         in if originalType = RuleTypeDistinguish
            then rule\<lparr>Type := RuleTypeRegex,
                      Pattern := [CHR ''('', CHR ''^'', CHR ''|'', CHR 0x5C, CHR ''.'', CHR '')'']
                                 @ regexPattern @ ''$''\<rparr>
            else rule\<lparr>Type := RuleTypeRegex, Pattern := ''^'' @ regexPattern @ ''$''\<rparr>)
      else rule)"

text \<open>Step 3 of \<^verbatim>\<open>ParseRule\<close>: the kind of the rule, from the text left of the
  modifiers. The slice \<^verbatim>\<open>text[1 : len(text)-1]\<close> panics when \<^verbatim>\<open>text\<close> is \<^verbatim>\<open>"/"\<close>.\<close>

definition classify :: "('a, 'p) Lib \<Rightarrow> 'a Rule \<Rightarrow> string \<Rightarrow> error + 'a Rule" where
  "classify lib rule text =
     (if HasPrefix text ''/'' \<and> HasSuffix text ''/'' then
        (if length text < 2 then Inl SliceBoundsPanic
         else Inr (rule\<lparr>Type := RuleTypeRegex,
                        Pattern := take (length text - 2) (drop 1 text)\<rparr>))
      else if HasPrefix text ''||'' \<and> HasSuffix text ''^'' then
        Inr (rule\<lparr>Type := RuleTypeDistinguish,
                  Pattern := take (length text - 3) (drop 2 text)\<rparr>)
      else if HasPrefix text ''||'' then
        Inr (rule\<lparr>Type := RuleTypeDistinguish, Pattern := drop 2 text\<rparr>)
      else
        (let parts = Fields text
         in if length parts \<ge> 2 then
              (case ParseAddr lib (parts ! 0) of
                 Some ip \<Rightarrow>
                   (let rule1 = rule\<lparr>IP := Some ip, Pattern := parts ! 1, Type := RuleTypeExact\<rparr>
                    in if \<not> IsLoopback lib ip \<and> \<not> IsUnspecified lib ip
                       then Inr (rule1\<lparr>Modifiers := (Modifiers rule1)\<lparr>DNSRewrite := AddrString lib ip\<rparr>\<rparr>)
                       else Inr rule1)
               | None \<Rightarrow> Inr (rule\<lparr>Type := RuleTypeExact\<rparr>))
            else Inr (rule\<lparr>Type := RuleTypeExact\<rparr>)))"

text \<open>
  \<^verbatim>\<open>ParseRule\<close> returns \<^verbatim>\<open>(nil, nil)\<close> (\<open>Inr None\<close>), \<^verbatim>\<open>(rule, nil)\<close>
  (\<open>Inr (Some rule)\<close>) or \<^verbatim>\<open>(nil, err)\<close> (\<open>Inl ParseError\<close>), or it panics.
\<close>

definition ParseRule :: "('a, 'p) Lib \<Rightarrow> string \<Rightarrow> error + 'a Rule option" where
  "ParseRule lib text0 =
     (let text = TrimSpace text0
      in if text = [] \<or> HasPrefix text ''!'' \<or> HasPrefix text ''#'' then Inr None
         else
           (let rule = \<lparr>Text = text, Pattern = [], Type = RuleTypeUnknown, IsWhitelist = False,
                        Modifiers = noModifiers, IP = None, GroupID = 0\<rparr>;
                rule1 = (if HasPrefix text ''@@'' then rule\<lparr>IsWhitelist := True\<rparr> else rule);
                text1 = (if HasPrefix text ''@@'' then drop 2 text else text)
            in case (case LastIndex text1 (CHR ''$'') of
                       Some idx \<Rightarrow>
                         (case parseModifiers (drop (idx + 1) text1) (Modifiers rule1) of
                            Inl err \<Rightarrow> Inl ParseError
                          | Inr m \<Rightarrow> Inr (rule1\<lparr>Modifiers := m\<rparr>, take idx text1))
                     | None \<Rightarrow> Inr (rule1, text1)) of
                 Inl err \<Rightarrow> Inl err
               | Inr (rule2, text2) \<Rightarrow>
                   (case classify lib (rule2\<lparr>Pattern := text2\<rparr>) text2 of
                      Inl err \<Rightarrow> Inl err
                    | Inr rule3 \<Rightarrow>
                        Inr (Some (convertWildcard
                          (rule3\<lparr>Pattern := TrimSuffix (Pattern rule3) ''^''\<rparr>))))))"

section \<open>The domain trie (engine/trie.go)\<close>

text \<open>A node holds its rules and the map from a label to the child node. Rules are
  values here; the code holds pointers to them.\<close>

datatype 'a TrieNode =
  TrieNode (rules: "'a Rule list") (children: "string \<Rightarrow> 'a TrieNode option")

definition NewTrieNode :: "'a TrieNode" where
  "NewTrieNode = TrieNode [] (\<lambda>k. None)"

record 'a DomainTrie =
  root :: "'a TrieNode"

definition NewDomainTrie :: "'a DomainTrie" where
  "NewDomainTrie = \<lparr>root = NewTrieNode\<rparr>"

text \<open>The loop of \<^verbatim>\<open>Insert\<close>, on the labels still to walk (last label first): a
  missing child is created, and the rule is appended at the node the walk ends in.\<close>

fun insertAt :: "'a TrieNode \<Rightarrow> string list \<Rightarrow> 'a Rule \<Rightarrow> 'a TrieNode" where
  "insertAt node [] rule = TrieNode (rules node @ [rule]) (children node)"
| "insertAt node (part # parts) rule =
     (let child = (case children node part of None \<Rightarrow> NewTrieNode | Some n \<Rightarrow> n)
      in TrieNode (rules node) ((children node)(part \<mapsto> insertAt child parts rule)))"

definition Insert :: "'a DomainTrie \<Rightarrow> 'a Rule \<Rightarrow> 'a DomainTrie" where
  "Insert t rule = t\<lparr>root := insertAt (root t) (rev (Split (Pattern rule) (CHR ''.''))) rule\<rparr>"

text \<open>The loop of \<^verbatim>\<open>SearchTrace\<close>: the rules of every node visited after the root,
  until an edge is missing.\<close>

fun searchFrom :: "'a TrieNode \<Rightarrow> string list \<Rightarrow> 'a Rule list" where
  "searchFrom node [] = []"
| "searchFrom node (part # parts) =
     (case children node part of
        None \<Rightarrow> []
      | Some n \<Rightarrow> rules n @ searchFrom n parts)"

definition SearchTrace :: "'a DomainTrie \<Rightarrow> string \<Rightarrow> 'a Rule list" where
  "SearchTrace t domain =
     searchFrom (root t) (rev (Split (TrimSuffix domain ''.'') (CHR ''.'')))"

section \<open>Schedules (engine/schedule.go)\<close>

datatype Weekday = Sunday | Monday | Tuesday | Wednesday | Thursday | Friday | Saturday

record TimeRange =
  Start :: int
  End :: int

text \<open>A missing key of \<^verbatim>\<open>WeekMap\<close> reads as the empty list of ranges.\<close>

record Schedule =
  ScheduleName :: string
  WeekMap :: "Weekday \<Rightarrow> TimeRange list"

record ScheduleMatcher =
  schedules :: "string \<Rightarrow> Schedule option"

text \<open>What \<^verbatim>\<open>IsActive\<close> reads of a \<^verbatim>\<open>time.Time\<close>: the weekday, the hour and the
  minute, in the local time zone.\<close>

record Time =
  TimeWeekday :: Weekday
  Hour :: int
  Minute :: int

fun inRanges :: "int \<Rightarrow> TimeRange list \<Rightarrow> bool" where
  "inRanges currentMins [] = False"
| "inRanges currentMins (r # rs) =
     (if currentMins \<ge> Start r \<and> currentMins \<le> End r then True
      else inRanges currentMins rs)"

definition IsActive :: "ScheduleMatcher \<Rightarrow> string \<Rightarrow> Time \<Rightarrow> bool" where
  "IsActive sm scheduleName t =
     (if scheduleName = [] then False
      else case schedules sm scheduleName of
             None \<Rightarrow> False
           | Some sch \<Rightarrow>
               (let ranges = WeekMap sch (TimeWeekday t)
                in if length ranges = 0 then False
                   else inRanges (Hour t * 60 + Minute t) ranges))"

section \<open>Configuration and users (config/config.go, engine/user.go)\<close>

record User =
  Name :: string
  IPs :: "string list"
  MACs :: "string list"
  UserGroup :: string

record Policy =
  RuleGroup :: string
  PolicySchedule :: string

record UserGroupCfg =
  UserGroupName :: string
  Policies :: "Policy list"

record Source =
  SourceName :: string
  URL :: string
  Path :: string

record RuleGroupCfg =
  RuleGroupName :: string
  Sources :: "Source list"

record Config =
  UserGroups :: "UserGroupCfg list"
  RuleGroups :: "RuleGroupCfg list"

record ('a, 'p) UserMatcher =
  byIP :: "'a \<Rightarrow> User option"
  byMAC :: "string \<Rightarrow> User option"
  cidrs :: "('p \<times> User) list"

fun matchCidrs :: "('a, 'p) Lib \<Rightarrow> ('p \<times> User) list \<Rightarrow> 'a \<Rightarrow> User option" where
  "matchCidrs lib [] ip = None"
| "matchCidrs lib ((pfx, user) # ms) ip =
     (if Contains lib pfx ip then Some user else matchCidrs lib ms ip)"

definition Match :: "('a, 'p) Lib \<Rightarrow> ('a, 'p) UserMatcher \<Rightarrow> 'a \<Rightarrow> string \<Rightarrow> User option" where
  "Match lib um ip mac =
     (case (if mac \<noteq> [] then byMAC um mac else None) of
        Some u \<Rightarrow> Some u
      | None \<Rightarrow>
          (case byIP um ip of
             Some u \<Rightarrow> Some u
           | None \<Rightarrow> matchCidrs lib (cidrs um) ip))"

section \<open>The engine (engine/engine.go)\<close>

record 'a RegexRule =
  RegexRuleRule :: "'a Rule"
  Regex :: "string \<Rightarrow> bool"

text \<open>A missing key of \<^verbatim>\<open>groupIDs\<close> reads as 0.\<close>

record ('a, 'p) Engine =
  cfg :: Config
  userMatcher :: "('a, 'p) UserMatcher"
  scheduleMatcher :: ScheduleMatcher
  trie :: "'a DomainTrie"
  regexRules :: "'a RegexRule list"
  groupIDs :: "string \<Rightarrow> int option"
  defaultUserGroupName :: string

record 'a ResolveResult =
  Blocked :: bool
  Reason :: string
  ResRule :: "'a Rule option"
  ResUser :: "User option"
  ResDNSRewrite :: string

subsection \<open>checkModifiers\<close>

text \<open>The loop that flattens the values of a modifier on \<^verbatim>\<open>|\<close>.\<close>

definition flatten :: "string list \<Rightarrow> string list" where
  "flatten raws = concat (map (\<lambda>raw. Split raw (CHR ''|'')) raws)"

text \<open>A loop that sets a flag and breaks at the first element that passes the test.\<close>

fun anyMatch :: "('x \<Rightarrow> bool) \<Rightarrow> 'x list \<Rightarrow> bool" where
  "anyMatch f [] = False"
| "anyMatch f (p # ps) = (if f p then True else anyMatch f ps)"

text \<open>The body of the \<^verbatim>\<open>$client\<close> loop: does the token \<open>p\<close> match the client?\<close>

definition clientIsMatch :: "('a, 'p) Lib \<Rightarrow> User option \<Rightarrow> 'a \<Rightarrow> string \<Rightarrow> bool" where
  "clientIsMatch lib user clientIP p0 =
     (let p = TrimSpace p0;
          target = TrimPrefix p ''~''
      in if (case user of None \<Rightarrow> False | Some u \<Rightarrow> target = Name u) then True
         else case ParseAddr lib target of
                Some ip \<Rightarrow> ip = clientIP
              | None \<Rightarrow>
                  (case ParsePrefix lib target of
                     Some pfx \<Rightarrow> Contains lib pfx clientIP
                   | None \<Rightarrow> target = AddrString lib clientIP))"

text \<open>The \<^verbatim>\<open>$client\<close> block: \<open>False\<close> where the code returns false, \<open>True\<close> where it
  goes on to the next modifier.\<close>

definition checkClient :: "('a, 'p) Lib \<Rightarrow> 'a Rule \<Rightarrow> User option \<Rightarrow> 'a \<Rightarrow> bool" where
  "checkClient lib r user clientIP =
     (if length (Client (Modifiers r)) > 0 then
        (let targets = flatten (Client (Modifiers r))
         in if length targets = 0 then False
            else
              (let isExclusionMode = HasPrefix (TrimSpace (targets ! 0)) ''~'';
                   matched = anyMatch (clientIsMatch lib user clientIP) targets
               in if isExclusionMode then \<not> matched else matched))
      else True)"

definition checkDNSType :: "('a, 'p) Lib \<Rightarrow> 'a Rule \<Rightarrow> 16 word \<Rightarrow> bool" where
  "checkDNSType lib r qType =
     (if length (DNSType (Modifiers r)) > 0 then
        (let typeName = TypeToString lib qType;
             targets = flatten (DNSType (Modifiers r))
         in if length targets = 0 then False
            else
              (let isExclusionMode = HasPrefix (TrimSpace (targets ! 0)) ''~'';
                   matched = anyMatch
                     (\<lambda>p. EqualFold lib (TrimPrefix (TrimSpace p) ''~'') typeName) targets
               in if isExclusionMode then \<not> matched else matched))
      else True)"

definition checkDenyAllow :: "'a Rule \<Rightarrow> string \<Rightarrow> bool" where
  "checkDenyAllow r qName =
     (if length (DenyAllow (Modifiers r)) > 0 then
        (let domain = TrimSuffix qName ''.'';
             isExcluded = anyMatch
               (\<lambda>raw. anyMatch (\<lambda>da. domain = TrimSpace da) (Split raw (CHR ''|'')))
               (DenyAllow (Modifiers r))
         in \<not> isExcluded)
      else True)"

definition checkModifiers ::
  "('a, 'p) Lib \<Rightarrow> 'a Rule \<Rightarrow> User option \<Rightarrow> 16 word \<Rightarrow> 'a \<Rightarrow> string \<Rightarrow> bool" where
  "checkModifiers lib r user qType clientIP qName =
     (if BadFilter (Modifiers r) then False
      else if \<not> checkClient lib r user clientIP then False
      else if \<not> checkDNSType lib r qType then False
      else if \<not> checkDenyAllow r qName then False
      else True)"

subsection \<open>getActiveGroupIDs\<close>

fun activeLoop ::
  "('a, 'p) Engine \<Rightarrow> Time \<Rightarrow> int list \<Rightarrow> (int \<Rightarrow> bool) \<Rightarrow> Policy list \<Rightarrow> int list" where
  "activeLoop e now activeIDs seen [] = activeIDs"
| "activeLoop e now activeIDs seen (policy # ps) =
     (let isActive = (if IsActive (scheduleMatcher e) (PolicySchedule policy) now
                      then False else True)
      in if isActive then
           (let gid = (case groupIDs e (RuleGroup policy) of None \<Rightarrow> 0 | Some g \<Rightarrow> g)
            in if gid \<noteq> 0 \<and> \<not> seen gid
               then activeLoop e now (activeIDs @ [gid]) (seen(gid := True)) ps
               else activeLoop e now activeIDs seen ps)
         else activeLoop e now activeIDs seen ps)"

definition getActiveGroupIDs :: "('a, 'p) Engine \<Rightarrow> Time \<Rightarrow> string \<Rightarrow> int list" where
  "getActiveGroupIDs e now userGroupName =
     (case find (\<lambda>ug. UserGroupName ug = userGroupName) (UserGroups (cfg e)) of
        None \<Rightarrow> []
      | Some ug \<Rightarrow> activeLoop e now [] (\<lambda>g. False) (Policies ug))"

subsection \<open>Resolve\<close>

text \<open>The four slots of one group, \<open>None\<close> for a nil pointer.\<close>

record 'a Slots =
  blockRule :: "'a Rule option"
  whitelistRule :: "'a Rule option"
  importantBlockRule :: "'a Rule option"
  importantWhitelistRule :: "'a Rule option"

definition noSlots :: "'a Slots" where
  "noSlots = \<lparr>blockRule = None, whitelistRule = None, importantBlockRule = None,
     importantWhitelistRule = None\<rparr>"

text \<open>The body of the inner loop of \<^verbatim>\<open>Resolve\<close>, on one candidate \<open>r\<close>.\<close>

definition slotStep ::
  "('a, 'p) Lib \<Rightarrow> User option \<Rightarrow> 16 word \<Rightarrow> 'a \<Rightarrow> string \<Rightarrow> int
    \<Rightarrow> 'a Slots \<Rightarrow> 'a Rule \<Rightarrow> 'a Slots" where
  "slotStep lib user qType clientIP qName gid s r =
     (if GroupID r \<noteq> gid then s
      else if Type r = RuleTypeExact \<and> Pattern r \<noteq> TrimSuffix qName ''.'' then s
      else if \<not> checkModifiers lib r user qType clientIP qName then s
      else if IsWhitelist r then
        (if Important (Modifiers r) then s\<lparr>importantWhitelistRule := Some r\<rparr>
         else s\<lparr>whitelistRule := Some r\<rparr>)
      else
        (if Important (Modifiers r) then s\<lparr>importantBlockRule := Some r\<rparr>
         else s\<lparr>blockRule := Some r\<rparr>))"

definition groupSlots ::
  "('a, 'p) Lib \<Rightarrow> User option \<Rightarrow> 16 word \<Rightarrow> 'a \<Rightarrow> string \<Rightarrow> int
    \<Rightarrow> 'a Rule list \<Rightarrow> 'a Slots" where
  "groupSlots lib user qType clientIP qName gid allMatches =
     foldl (slotStep lib user qType clientIP qName gid) noSlots allMatches"

text \<open>The outer loop of \<^verbatim>\<open>Resolve\<close>, on the active groups still to try.\<close>

fun evalGroups ::
  "('a, 'p) Lib \<Rightarrow> User option \<Rightarrow> 16 word \<Rightarrow> 'a \<Rightarrow> string \<Rightarrow> 'a Rule list
    \<Rightarrow> int list \<Rightarrow> 'a ResolveResult" where
  "evalGroups lib user qType clientIP qName allMatches [] =
     \<lparr>Blocked = False, Reason = ''Not found'', ResRule = None, ResUser = user,
      ResDNSRewrite = []\<rparr>"
| "evalGroups lib user qType clientIP qName allMatches (gid # gids) =
     (let s = groupSlots lib user qType clientIP qName gid allMatches
      in case importantWhitelistRule s of
           Some r \<Rightarrow> \<lparr>Blocked = False, Reason = ''Important Whitelisted'', ResRule = Some r,
                      ResUser = user, ResDNSRewrite = []\<rparr>
         | None \<Rightarrow>
        (case importantBlockRule s of
           Some r \<Rightarrow> \<lparr>Blocked = True, Reason = ''Important Blocked'', ResRule = Some r,
                      ResUser = user, ResDNSRewrite = []\<rparr>
         | None \<Rightarrow>
        (case whitelistRule s of
           Some r \<Rightarrow> \<lparr>Blocked = False, Reason = ''Whitelisted'', ResRule = Some r,
                      ResUser = user, ResDNSRewrite = []\<rparr>
         | None \<Rightarrow>
        (case blockRule s of
           Some r \<Rightarrow>
             (if DNSRewrite (Modifiers r) \<noteq> []
              then \<lparr>Blocked = True, Reason = ''Rewrite'', ResRule = Some r, ResUser = user,
                    ResDNSRewrite = DNSRewrite (Modifiers r)\<rparr>
              else \<lparr>Blocked = True, Reason = ''Blocked'', ResRule = Some r, ResUser = user,
                    ResDNSRewrite = []\<rparr>)
         | None \<Rightarrow> evalGroups lib user qType clientIP qName allMatches gids))))"

text \<open>The user group of a client: the matched user's group, else the default.\<close>

definition userGroupOf :: "('a, 'p) Engine \<Rightarrow> User option \<Rightarrow> string" where
  "userGroupOf e user =
     (case user of Some u \<Rightarrow> UserGroup u | None \<Rightarrow> defaultUserGroupName e)"

text \<open>The candidates of a query: the trie's trace, then the rules whose regular expression
  matches the raw query name.\<close>

definition allMatchesOf :: "('a, 'p) Engine \<Rightarrow> string \<Rightarrow> 'a Rule list" where
  "allMatchesOf e qName =
     SearchTrace (trie e) qName
       @ map RegexRuleRule (filter (\<lambda>rr. Regex rr qName) (regexRules e))"

text \<open>\<^verbatim>\<open>Resolve\<close>; \<open>now\<close> is the value of \<^verbatim>\<open>time.Now()\<close> that
  \<^verbatim>\<open>getActiveGroupIDs\<close> reads.\<close>

definition Resolve ::
  "('a, 'p) Lib \<Rightarrow> ('a, 'p) Engine \<Rightarrow> Time \<Rightarrow> string \<Rightarrow> 16 word \<Rightarrow> 'a \<Rightarrow> string
    \<Rightarrow> 'a ResolveResult" where
  "Resolve lib e now qName qType clientIP clientMAC =
     (let user = Match lib (userMatcher e) clientIP clientMAC;
          userGroupName = userGroupOf e user;
          activeGroupIDs = getActiveGroupIDs e now userGroupName
      in if length activeGroupIDs = 0
         then \<lparr>Blocked = False, Reason = ''No active rules'', ResRule = None, ResUser = user,
               ResDNSRewrite = []\<rparr>
         else evalGroups lib user qType clientIP qName (allMatchesOf e qName) activeGroupIDs)"

section \<open>Notions used to state the properties\<close>

text \<open>A candidate is applicable to a query in group \<open>gid\<close> when the inner loop of
  \<^verbatim>\<open>Resolve\<close> does not skip it: it belongs to the group, passes the check on Exact
  rules and passes \<^verbatim>\<open>checkModifiers\<close>.\<close>

definition applicable ::
  "('a, 'p) Lib \<Rightarrow> User option \<Rightarrow> 16 word \<Rightarrow> 'a \<Rightarrow> string \<Rightarrow> int \<Rightarrow> 'a Rule \<Rightarrow> bool" where
  "applicable lib user qType clientIP qName gid r =
     (GroupID r = gid
      \<and> \<not> (Type r = RuleTypeExact \<and> Pattern r \<noteq> TrimSuffix qName ''.'')
      \<and> checkModifiers lib r user qType clientIP qName)"

definition firstOption :: "'x list \<Rightarrow> 'x option" where
  "firstOption xs = (if xs = [] then None else Some (hd xs))"

definition lastOption :: "'x list \<Rightarrow> 'x option" where
  "lastOption xs = (if xs = [] then None else Some (last xs))"

text \<open>The inverse of \<^const>\<open>Split\<close>: the parts, with the separator between them.\<close>

fun joinWith :: "char \<Rightarrow> string list \<Rightarrow> string" where
  "joinWith c [] = []"
| "joinWith c [x] = x"
| "joinWith c (x # y # ys) = x @ c # joinWith c (y # ys)"

text \<open>The applicable candidates of a query in group \<open>gid\<close>, in the order of enumeration.\<close>

definition applicableCandidates ::
  "('a, 'p) Lib \<Rightarrow> ('a, 'p) Engine \<Rightarrow> User option \<Rightarrow> 16 word \<Rightarrow> 'a \<Rightarrow> string \<Rightarrow> int
    \<Rightarrow> 'a Rule list" where
  "applicableCandidates lib e user qType clientIP qName gid =
     filter (applicable lib user qType clientIP qName gid) (allMatchesOf e qName)"

section \<open>An instance of the external libraries, for closed examples\<close>

text \<open>
  The IPv4 fragment of \<^verbatim>\<open>net/netip\<close>: an address is its four octets, a prefix an address
  and a number of bits. \<^verbatim>\<open>ParseAddr\<close> accepts four dot-separated decimal octets, each
  without a leading zero and at most 255; it agrees with Go on every string without
  \<^verbatim>\<open>:\<close>. \<^verbatim>\<open>TypeToString\<close> is an excerpt of the table of \<^verbatim>\<open>miekg/dns\<close>, and
  \<^verbatim>\<open>EqualFold\<close> folds the ASCII letters only. The examples below use IPv4 literals,
  the types A, AAAA and CNAME, and ASCII names.
\<close>

datatype Addr4 = Addr4 nat nat nat nat

definition isDigit :: "char \<Rightarrow> bool" where
  "isDigit c = (48 \<le> (of_char c :: nat) \<and> (of_char c :: nat) \<le> 57)"

definition decimal :: "string \<Rightarrow> nat" where
  "decimal s = foldl (\<lambda>v c. v * 10 + ((of_char c :: nat) - 48)) 0 s"

definition parseOctet :: "string \<Rightarrow> nat option" where
  "parseOctet s =
     (if s \<noteq> [] \<and> list_all isDigit s \<and> (length s = 1 \<or> hd s \<noteq> CHR ''0'') \<and> decimal s \<le> 255
      then Some (decimal s) else None)"

definition ParseAddr4 :: "string \<Rightarrow> Addr4 option" where
  "ParseAddr4 s =
     (case map parseOctet (Split s (CHR ''.'')) of
        [Some a, Some b, Some c, Some d] \<Rightarrow> Some (Addr4 a b c d)
      | _ \<Rightarrow> None)"

definition showDigit :: "nat \<Rightarrow> char" where
  "showDigit n = char_of (48 + n)"

definition showOctet :: "nat \<Rightarrow> string" where
  "showOctet n =
     (if n < 10 then [showDigit n]
      else if n < 100 then [showDigit (n div 10), showDigit (n mod 10)]
      else [showDigit (n div 100), showDigit (n div 10 mod 10), showDigit (n mod 10)])"

definition AddrString4 :: "Addr4 \<Rightarrow> string" where
  "AddrString4 ip =
     (case ip of Addr4 a b c d \<Rightarrow>
        showOctet a @ ''.'' @ showOctet b @ ''.'' @ showOctet c @ ''.'' @ showOctet d)"

fun addrValue :: "Addr4 \<Rightarrow> nat" where
  "addrValue (Addr4 a b c d) = ((a * 256 + b) * 256 + c) * 256 + d"

definition ParsePrefix4 :: "string \<Rightarrow> (Addr4 \<times> nat) option" where
  "ParsePrefix4 s =
     (case LastIndex s (CHR ''/'') of
        None \<Rightarrow> None
      | Some i \<Rightarrow>
          (case ParseAddr4 (take i s) of
             None \<Rightarrow> None
           | Some ip \<Rightarrow>
               (let bitsStr = drop (i + 1) s
                in if bitsStr = [] \<or> \<not> list_all isDigit bitsStr
                      \<or> (length bitsStr > 1 \<and> hd bitsStr = CHR ''0'')
                   then None
                   else if decimal bitsStr > 32 then None
                   else Some (ip, decimal bitsStr))))"

fun Contains4 :: "Addr4 \<times> nat \<Rightarrow> Addr4 \<Rightarrow> bool" where
  "Contains4 (ip, bits) a =
     (addrValue a div 2 ^ (32 - bits) = addrValue ip div 2 ^ (32 - bits))"

fun IsLoopback4 :: "Addr4 \<Rightarrow> bool" where
  "IsLoopback4 (Addr4 a b c d) = (a = 127)"

fun IsUnspecified4 :: "Addr4 \<Rightarrow> bool" where
  "IsUnspecified4 (Addr4 a b c d) = (a = 0 \<and> b = 0 \<and> c = 0 \<and> d = 0)"

definition TypeToStringExcerpt :: "16 word \<Rightarrow> string" where
  "TypeToStringExcerpt t =
     (if t = 1 then ''A'' else if t = 5 then ''CNAME'' else if t = 28 then ''AAAA'' else [])"

definition lowerASCII :: "char \<Rightarrow> char" where
  "lowerASCII c =
     (if 65 \<le> (of_char c :: nat) \<and> (of_char c :: nat) \<le> 90
      then char_of ((of_char c :: nat) + 32) else c)"

definition EqualFoldASCII :: "string \<Rightarrow> string \<Rightarrow> bool" where
  "EqualFoldASCII s t = (map lowerASCII s = map lowerASCII t)"

definition ipv4Lib :: "(Addr4, Addr4 \<times> nat) Lib" where
  "ipv4Lib = \<lparr>ParseAddr = ParseAddr4, ParsePrefix = ParsePrefix4, Contains = Contains4,
     AddrString = AddrString4, IsLoopback = IsLoopback4, IsUnspecified = IsUnspecified4,
     TypeToString = TypeToStringExcerpt, EqualFold = EqualFoldASCII\<rparr>"

section \<open>A small engine, for closed examples\<close>

text \<open>One user group \<open>default_group\<close> with the single policy (\<open>ads\<close>, no schedule), no
  configured user, and the trie that inserting the rules \<open>rs\<close> in order builds.\<close>

definition demoRule :: "string \<Rightarrow> RuleType \<Rightarrow> bool \<Rightarrow> Modifiers \<Rightarrow> Addr4 Rule" where
  "demoRule pat ty wl m =
     \<lparr>Text = pat, Pattern = pat, Type = ty, IsWhitelist = wl, Modifiers = m, IP = None,
      GroupID = 1\<rparr>"

definition demoEngine :: "Addr4 Rule list \<Rightarrow> (Addr4, Addr4 \<times> nat) Engine" where
  "demoEngine rs =
     \<lparr>cfg = \<lparr>UserGroups = [\<lparr>UserGroupName = ''default_group'',
                             Policies = [\<lparr>RuleGroup = ''ads'', PolicySchedule = []\<rparr>]\<rparr>],
             RuleGroups = [\<lparr>RuleGroupName = ''ads'', Sources = []\<rparr>]\<rparr>,
      userMatcher = \<lparr>byIP = \<lambda>ip. None, byMAC = \<lambda>mac. None, cidrs = []\<rparr>,
      scheduleMatcher = \<lparr>schedules = \<lambda>name. None\<rparr>,
      trie = foldl Insert NewDomainTrie rs,
      regexRules = [],
      groupIDs = [''ads'' \<mapsto> 1],
      defaultUserGroupName = ''default_group''\<rparr>"

definition demoTime :: Time where
  "demoTime = \<lparr>TimeWeekday = Monday, Hour = 10, Minute = 0\<rparr>"

section \<open>A schedule, for closed examples\<close>

text \<open>The group id a policy names, 0 when the rule group is not configured.\<close>

definition gidOf :: "('a, 'p) Engine \<Rightarrow> Policy \<Rightarrow> int" where
  "gidOf e policy = (case groupIDs e (RuleGroup policy) of None \<Rightarrow> 0 | Some g \<Rightarrow> g)"

text \<open>The schedule \<open>evening\<close> is Monday 18:00 to 23:00; the engine binds the rule group
  \<open>ads\<close> to it.\<close>

definition eveningMatcher :: ScheduleMatcher where
  "eveningMatcher =
     \<lparr>schedules = [''evening'' \<mapsto>
        \<lparr>ScheduleName = ''evening'',
         WeekMap = (\<lambda>d. if d = Monday then [\<lparr>Start = 1080, End = 1380\<rparr>] else [])\<rparr>]\<rparr>"

definition eveningEngine :: "(Addr4, Addr4 \<times> nat) Engine" where
  "eveningEngine =
     \<lparr>cfg = \<lparr>UserGroups = [\<lparr>UserGroupName = ''default_group'',
                             Policies = [\<lparr>RuleGroup = ''ads'', PolicySchedule = ''evening''\<rparr>]\<rparr>],
             RuleGroups = [\<lparr>RuleGroupName = ''ads'', Sources = []\<rparr>]\<rparr>,
      userMatcher = \<lparr>byIP = \<lambda>ip. None, byMAC = \<lambda>mac. None, cidrs = []\<rparr>,
      scheduleMatcher = eveningMatcher,
      trie = NewDomainTrie,
      regexRules = [],
      groupIDs = [''ads'' \<mapsto> 1],
      defaultUserGroupName = ''default_group''\<rparr>"

text \<open>The same engine with a second policy for \<open>ads\<close>, without a schedule.\<close>

definition overlapEngine :: "(Addr4, Addr4 \<times> nat) Engine" where
  "overlapEngine =
     eveningEngine\<lparr>cfg := (cfg eveningEngine)\<lparr>UserGroups :=
       [\<lparr>UserGroupName = ''default_group'',
         Policies = [\<lparr>RuleGroup = ''ads'', PolicySchedule = ''evening''\<rparr>,
                     \<lparr>RuleGroup = ''ads'', PolicySchedule = []\<rparr>]\<rparr>]\<rparr>\<rparr>"

section \<open>The \<^verbatim>\<open>$client\<close> modifier, in the words of the specification\<close>

text \<open>A token matches the client when it equals the matched user's name, or parses as an
  address equal to the client's, or parses as a prefix containing the client's address, or
  equals the textual form of the client's address.\<close>

definition tokenMatches :: "('a, 'p) Lib \<Rightarrow> User option \<Rightarrow> 'a \<Rightarrow> string \<Rightarrow> bool" where
  "tokenMatches lib user clientIP t =
     ((case user of None \<Rightarrow> False | Some u \<Rightarrow> t = Name u)
      \<or> ParseAddr lib t = Some clientIP
      \<or> (case ParsePrefix lib t of None \<Rightarrow> False | Some pfx \<Rightarrow> Contains lib pfx clientIP)
      \<or> t = AddrString lib clientIP)"

text \<open>The mode is that of the first token: with a leading \<^verbatim>\<open>~\<close> the rule applies when no
  token matches, without one when some token matches; a leading \<^verbatim>\<open>~\<close> is stripped from
  a token before the test.\<close>

definition clientRuleApplies ::
  "('a, 'p) Lib \<Rightarrow> string list \<Rightarrow> User option \<Rightarrow> 'a \<Rightarrow> bool" where
  "clientRuleApplies lib tokens user clientIP =
     (if HasPrefix (hd tokens) ''~''
      then \<not> (\<exists>t\<in>set tokens. tokenMatches lib user clientIP (TrimPrefix t ''~''))
      else (\<exists>t\<in>set tokens. tokenMatches lib user clientIP (TrimPrefix t ''~'')))"

text \<open>A configured user, for closed examples.\<close>

definition bob :: User where
  "bob = \<lparr>Name = ''bob'', IPs = [''10.0.0.5''], MACs = [], UserGroup = ''default_group''\<rparr>"

section \<open>The stages of \<^verbatim>\<open>ParseRule\<close>, named\<close>

text \<open>A line is skipped when, trimmed, it is empty or starts with \<^verbatim>\<open>!\<close> or \<^verbatim>\<open>#\<close>.\<close>

definition isComment :: "string \<Rightarrow> bool" where
  "isComment text0 =
     (TrimSpace text0 = [] \<or> HasPrefix (TrimSpace text0) ''!'' \<or> HasPrefix (TrimSpace text0) ''#'')"

text \<open>The trimmed line without a leading \<^verbatim>\<open>@@\<close>.\<close>

definition unmarked :: "string \<Rightarrow> string" where
  "unmarked text0 =
     (if HasPrefix (TrimSpace text0) ''@@'' then drop 2 (TrimSpace text0) else TrimSpace text0)"

text \<open>The body of a line: what is left of the last \<^verbatim>\<open>$\<close>, or all of it when there is
  none. \<^verbatim>\<open>ParseRule\<close> classifies the body.\<close>

definition bodyOf :: "string \<Rightarrow> string" where
  "bodyOf text0 =
     (case LastIndex (unmarked text0) (CHR ''$'') of
        Some idx \<Rightarrow> take idx (unmarked text0)
      | None \<Rightarrow> unmarked text0)"

text \<open>The modifiers \<^verbatim>\<open>parseModifiers\<close> reads right of the last \<^verbatim>\<open>$\<close>.\<close>

definition modifiersOf :: "string \<Rightarrow> Modifiers" where
  "modifiersOf text0 =
     (case LastIndex (unmarked text0) (CHR ''$'') of
        Some idx \<Rightarrow>
          foldl parseModifier noModifiers (Split (drop (idx + 1) (unmarked text0)) (CHR '',''))
      | None \<Rightarrow> noModifiers)"

section \<open>Rule objects and \<^verbatim>\<open>ReloadRules\<close> (engine/engine.go)\<close>

text \<open>
  The code holds rules by pointer: the trie, the regular-expression list and the file cache
  all hold \<^verbatim>\<open>*parser.Rule\<close>, and \<^verbatim>\<open>ReloadRules\<close> writes the group id into the rule
  object. Here a pointer is the index of the object in the list of all rule objects.
\<close>

type_synonym ptr = nat

text \<open>The trie as it is in memory, with pointers at the nodes; \<^verbatim>\<open>Insert\<close> and
  \<^verbatim>\<open>SearchTrace\<close> are those of the trie above, \<open>pattern\<close> being the pattern of the rule
  inserted, read when it is inserted.\<close>

datatype PtrNode =
  PtrNode (ptrRules: "ptr list") (ptrChildren: "string \<Rightarrow> PtrNode option")

definition NewPtrNode :: PtrNode where
  "NewPtrNode = PtrNode [] (\<lambda>k. None)"

fun insertPtrAt :: "PtrNode \<Rightarrow> string list \<Rightarrow> ptr \<Rightarrow> PtrNode" where
  "insertPtrAt node [] rule = PtrNode (ptrRules node @ [rule]) (ptrChildren node)"
| "insertPtrAt node (part # parts) rule =
     (let child = (case ptrChildren node part of None \<Rightarrow> NewPtrNode | Some n \<Rightarrow> n)
      in PtrNode (ptrRules node) ((ptrChildren node)(part \<mapsto> insertPtrAt child parts rule)))"

definition InsertPtr :: "PtrNode \<Rightarrow> string \<Rightarrow> ptr \<Rightarrow> PtrNode" where
  "InsertPtr t pattern rule = insertPtrAt t (rev (Split pattern (CHR ''.''))) rule"

fun searchPtrFrom :: "PtrNode \<Rightarrow> string list \<Rightarrow> ptr list" where
  "searchPtrFrom node [] = []"
| "searchPtrFrom node (part # parts) =
     (case ptrChildren node part of
        None \<Rightarrow> []
      | Some n \<Rightarrow> ptrRules n @ searchPtrFrom n parts)"

definition SearchTracePtr :: "PtrNode \<Rightarrow> string \<Rightarrow> ptr list" where
  "SearchTracePtr t domain =
     searchPtrFrom t (rev (Split (TrimSuffix domain ''.'') (CHR ''.'')))"

text \<open>An entry of the regular-expression list: the rule and the compiled expression.\<close>

record RegexPtr =
  RegexPtrRule :: ptr
  RegexPtrMatch :: "string \<Rightarrow> bool"

text \<open>What of the engine changes after \<^verbatim>\<open>NewEngine\<close>: the rule objects, the file cache
  and the index that queries read. (The fields \<open>trie\<close> and \<open>regexRules\<close> of the record
  \<open>Engine\<close> are that index with the pointers read through.)\<close>

record 'a EngineState =
  objects :: "'a Rule list"
  fileRuleCache :: "string \<Rightarrow> ptr list option"
  liveTrie :: PtrNode
  liveRegexRules :: "RegexPtr list"

text \<open>The index a reload builds: the local variables \<^verbatim>\<open>newTrie\<close> and
  \<^verbatim>\<open>newRegexRules\<close>.\<close>

record Build =
  newTrie :: PtrNode
  newRegexRules :: "RegexPtr list"

text \<open>What a reload reads from outside: the rules the loader parses from a path or a URL,
  as values from which fresh objects are made (\<open>None\<close> for an error), and
  \<^verbatim>\<open>regexp.Compile\<close>.\<close>

record 'a ReloadEnv =
  LoadFromPath :: "string \<Rightarrow> 'a Rule list option"
  LoadFromURLWithCache :: "string \<Rightarrow> 'a Rule list option"
  Compile :: "string \<Rightarrow> (string \<Rightarrow> bool) option"

definition NewEngineState :: "'a EngineState" where
  "NewEngineState =
     \<lparr>objects = [], fileRuleCache = (\<lambda>path. None), liveTrie = NewPtrNode, liveRegexRules = []\<rparr>"

definition NewBuild :: Build where
  "NewBuild = \<lparr>newTrie = NewPtrNode, newRegexRules = []\<rparr>"

text \<open>New objects for freshly parsed rules, and the pointers to them.\<close>

definition alloc :: "'a EngineState \<Rightarrow> 'a Rule list \<Rightarrow> 'a EngineState \<times> ptr list" where
  "alloc st rs =
     (st\<lparr>objects := objects st @ rs\<rparr>,
      [length (objects st) ..< length (objects st) + length rs])"

text \<open>The first half of the body of a goroutine of \<^verbatim>\<open>ReloadRules\<close>: the rules of a
  source, from the file cache when the path is there, else from the loader (a path read
  from the loader is put into the cache). \<open>None\<close> where \<^verbatim>\<open>err != nil\<close>.\<close>

definition fetchRules ::
  "'a ReloadEnv \<Rightarrow> Source \<Rightarrow> 'a EngineState \<Rightarrow> ('a EngineState \<times> ptr list) option" where
  "fetchRules env src st =
     (if Path src \<noteq> [] then
        (case fileRuleCache st (Path src) of
           Some cached \<Rightarrow> Some (st, cached)
         | None \<Rightarrow>
             (case LoadFromPath env (Path src) of
                None \<Rightarrow> None
              | Some rs \<Rightarrow>
                  (case alloc st rs of
                     (st1, loaded) \<Rightarrow>
                       Some (st1\<lparr>fileRuleCache := (fileRuleCache st1)(Path src \<mapsto> loaded)\<rparr>,
                             loaded))))
      else if URL src \<noteq> [] then
        (case LoadFromURLWithCache env (URL src) of
           None \<Rightarrow> None
         | Some rs \<Rightarrow> Some (alloc st rs))
      else Some (st, []))"

text \<open>The second half, the loop under the mutex \<^verbatim>\<open>mu\<close>: each rule object gets the group
  id written into it and goes into the new trie or the new regular-expression list.\<close>

fun stampLoop ::
  "'a ReloadEnv \<Rightarrow> int \<Rightarrow> 'a EngineState \<times> Build \<Rightarrow> ptr list \<Rightarrow> 'a EngineState \<times> Build" where
  "stampLoop env gid (st, b) [] = (st, b)"
| "stampLoop env gid (st, b) (p # ps) =
     (let st1 = st\<lparr>objects := (objects st)[p := (objects st ! p)\<lparr>GroupID := gid\<rparr>]\<rparr>;
          r = objects st1 ! p
      in if Type r = RuleTypeExact \<or> Type r = RuleTypeDistinguish
         then stampLoop env gid (st1, b\<lparr>newTrie := InsertPtr (newTrie b) (Pattern r) p\<rparr>) ps
         else if Type r = RuleTypeRegex
         then (case Compile env (Pattern r) of
                 Some re \<Rightarrow>
                   stampLoop env gid
                     (st1, b\<lparr>newRegexRules := newRegexRules b
                               @ [\<lparr>RegexPtrRule = p, RegexPtrMatch = re\<rparr>]\<rparr>) ps
               | None \<Rightarrow> stampLoop env gid (st1, b) ps)
         else stampLoop env gid (st1, b) ps)"

text \<open>The body of one goroutine.\<close>

definition loadSource ::
  "'a ReloadEnv \<Rightarrow> Source \<Rightarrow> int \<Rightarrow> 'a EngineState \<times> Build \<Rightarrow> 'a EngineState \<times> Build" where
  "loadSource env src gid sb =
     (case fetchRules env src (fst sb) of
        None \<Rightarrow> sb
      | Some (st1, loaded) \<Rightarrow> stampLoop env gid (st1, snd sb) loaded)"

text \<open>The goroutines \<^verbatim>\<open>ReloadRules\<close> starts, in the order it starts them: one for each
  source of each rule group, with the group's id.\<close>

definition jobs :: "('a, 'p) Engine \<Rightarrow> (Source \<times> int) list" where
  "jobs e =
     concat (map (\<lambda>rg. map (\<lambda>src. (src, (case groupIDs e (RuleGroupName rg) of
                                              None \<Rightarrow> 0 | Some g \<Rightarrow> g)))
                          (Sources rg))
                 (RuleGroups (cfg e)))"

definition runJobs ::
  "'a ReloadEnv \<Rightarrow> (Source \<times> int) list \<Rightarrow> 'a EngineState \<times> Build \<Rightarrow> 'a EngineState \<times> Build" where
  "runJobs env js sb = foldl (\<lambda>sb job. loadSource env (fst job) (snd job) sb) sb js"

text \<open>The swap at the end of \<^verbatim>\<open>ReloadRules\<close>, under \<^verbatim>\<open>trieMu\<close>.\<close>

definition swap :: "'a EngineState \<Rightarrow> Build \<Rightarrow> 'a EngineState" where
  "swap st b = st\<lparr>liveTrie := newTrie b, liveRegexRules := newRegexRules b\<rparr>"

text \<open>A run of \<^verbatim>\<open>ReloadRules\<close> in which the goroutines get the mutex \<^verbatim>\<open>mu\<close> in the
  order they were started.\<close>

definition ReloadRules :: "'a ReloadEnv \<Rightarrow> ('a, 'p) Engine \<Rightarrow> 'a EngineState \<Rightarrow> 'a EngineState" where
  "ReloadRules env e st =
     (case runJobs env (jobs e) (st, NewBuild) of (st1, b) \<Rightarrow> swap st1 b)"

text \<open>The state of the engine in such a run when the first \<open>k\<close> goroutines have finished
  and the others have not begun; the swap has not happened. The loop of a goroutine holds
  \<^verbatim>\<open>mu\<close> only, and \<^verbatim>\<open>Resolve\<close> takes \<^verbatim>\<open>trieMu\<close> only, so a query can run in this
  state.\<close>

definition duringReload ::
  "'a ReloadEnv \<Rightarrow> ('a, 'p) Engine \<Rightarrow> 'a EngineState \<Rightarrow> nat \<Rightarrow> 'a EngineState" where
  "duringReload env e st k = fst (runJobs env (take k (jobs e)) (st, NewBuild))"

text \<open>The candidates of a query in a state of the engine: the pointers found in the index,
  read through to the rule objects as they are in that state.\<close>

definition allMatchesAt :: "'a EngineState \<Rightarrow> string \<Rightarrow> 'a Rule list" where
  "allMatchesAt st qName =
     map (\<lambda>p. objects st ! p) (SearchTracePtr (liveTrie st) qName)
       @ map (\<lambda>rr. objects st ! RegexPtrRule rr)
           (filter (\<lambda>rr. RegexPtrMatch rr qName) (liveRegexRules st))"

text \<open>\<^verbatim>\<open>Resolve\<close> run in a state of the engine.\<close>

definition ResolveAt ::
  "('a, 'p) Lib \<Rightarrow> ('a, 'p) Engine \<Rightarrow> 'a EngineState \<Rightarrow> Time \<Rightarrow> string \<Rightarrow> 16 word \<Rightarrow> 'a
    \<Rightarrow> string \<Rightarrow> 'a ResolveResult" where
  "ResolveAt lib e st now qName qType clientIP clientMAC =
     (let user = Match lib (userMatcher e) clientIP clientMAC;
          userGroupName = userGroupOf e user;
          activeGroupIDs = getActiveGroupIDs e now userGroupName
      in if length activeGroupIDs = 0
         then \<lparr>Blocked = False, Reason = ''No active rules'', ResRule = None, ResUser = user,
               ResDNSRewrite = []\<rparr>
         else evalGroups lib user qType clientIP qName (allMatchesAt st qName) activeGroupIDs)"

text \<open>For a closed example: the rule groups \<open>base\<close> (id 1) and \<open>kids\<close> (id 2) both read
  the file \<^verbatim>\<open>ads.txt\<close>, whose one line is \<^verbatim>\<open>||ads.example^\<close>; the default user group
  has the single policy \<open>kids\<close>. No rule of the file is a regular expression, so
  \<^verbatim>\<open>regexp.Compile\<close> is never called.\<close>

definition adsSource :: Source where
  "adsSource = \<lparr>SourceName = ''ads'', URL = [], Path = ''ads.txt''\<rparr>"

definition adsLine :: "Addr4 Rule" where
  "adsLine = \<lparr>Text = ''||ads.example^'', Pattern = ''ads.example'', Type = RuleTypeDistinguish,
     IsWhitelist = False, Modifiers = noModifiers, IP = None, GroupID = 0\<rparr>"

definition sharedEnv :: "Addr4 ReloadEnv" where
  "sharedEnv = \<lparr>LoadFromPath = [''ads.txt'' \<mapsto> [adsLine]],
     LoadFromURLWithCache = (\<lambda>url. None), Compile = (\<lambda>pat. None)\<rparr>"

definition sharedEngine :: "(Addr4, Addr4 \<times> nat) Engine" where
  "sharedEngine =
     \<lparr>cfg = \<lparr>UserGroups = [\<lparr>UserGroupName = ''default_group'',
                             Policies = [\<lparr>RuleGroup = ''kids'', PolicySchedule = []\<rparr>]\<rparr>],
             RuleGroups = [\<lparr>RuleGroupName = ''base'', Sources = [adsSource]\<rparr>,
                           \<lparr>RuleGroupName = ''kids'', Sources = [adsSource]\<rparr>]\<rparr>,
      userMatcher = \<lparr>byIP = \<lambda>ip. None, byMAC = \<lambda>mac. None, cidrs = []\<rparr>,
      scheduleMatcher = \<lparr>schedules = \<lambda>name. None\<rparr>,
      trie = NewDomainTrie,
      regexRules = [],
      groupIDs = [''base'' \<mapsto> 1, ''kids'' \<mapsto> 2],
      defaultUserGroupName = ''default_group''\<rparr>"

text \<open>The trie after the first load of the example: both goroutines inserted the one rule
  object.\<close>

definition sharedTrie :: PtrNode where
  "sharedTrie = InsertPtr (InsertPtr NewPtrNode ''ads.example'' 0) ''ads.example'' 0"

section \<open>Properties\<close>

subsection \<open>The slots of one group\<close>

lemma slotStep_iw:
  "importantWhitelistRule (slotStep lib user qType clientIP qName gid s r) =
     (if applicable lib user qType clientIP qName gid r \<and> IsWhitelist r \<and> Important (Modifiers r)
      then Some r else importantWhitelistRule s)"
  by (auto simp: slotStep_def applicable_def)

lemma slotStep_ib:
  "importantBlockRule (slotStep lib user qType clientIP qName gid s r) =
     (if applicable lib user qType clientIP qName gid r \<and> \<not> IsWhitelist r \<and> Important (Modifiers r)
      then Some r else importantBlockRule s)"
  by (auto simp: slotStep_def applicable_def)

lemma slotStep_w:
  "whitelistRule (slotStep lib user qType clientIP qName gid s r) =
     (if applicable lib user qType clientIP qName gid r \<and> IsWhitelist r \<and> \<not> Important (Modifiers r)
      then Some r else whitelistRule s)"
  by (auto simp: slotStep_def applicable_def)

lemma slotStep_b:
  "blockRule (slotStep lib user qType clientIP qName gid s r) =
     (if applicable lib user qType clientIP qName gid r \<and> \<not> IsWhitelist r \<and> \<not> Important (Modifiers r)
      then Some r else blockRule s)"
  by (auto simp: slotStep_def applicable_def)

lemma groupSlots_snoc:
  "groupSlots lib user qType clientIP qName gid (rs @ [r]) =
     slotStep lib user qType clientIP qName gid (groupSlots lib user qType clientIP qName gid rs) r"
  by (simp add: groupSlots_def)

lemma groupSlots_Nil: "groupSlots lib user qType clientIP qName gid [] = noSlots"
  by (simp add: groupSlots_def)

lemma groupSlots_iw:
  "importantWhitelistRule (groupSlots lib user qType clientIP qName gid rs) =
     lastOption (filter (\<lambda>r. applicable lib user qType clientIP qName gid r
                          \<and> IsWhitelist r \<and> Important (Modifiers r)) rs)"
  by (induction rs rule: rev_induct)
     (simp_all add: groupSlots_Nil groupSlots_snoc slotStep_iw lastOption_def noSlots_def)

lemma groupSlots_ib:
  "importantBlockRule (groupSlots lib user qType clientIP qName gid rs) =
     lastOption (filter (\<lambda>r. applicable lib user qType clientIP qName gid r
                          \<and> \<not> IsWhitelist r \<and> Important (Modifiers r)) rs)"
  by (induction rs rule: rev_induct)
     (simp_all add: groupSlots_Nil groupSlots_snoc slotStep_ib lastOption_def noSlots_def)

lemma groupSlots_w:
  "whitelistRule (groupSlots lib user qType clientIP qName gid rs) =
     lastOption (filter (\<lambda>r. applicable lib user qType clientIP qName gid r
                          \<and> IsWhitelist r \<and> \<not> Important (Modifiers r)) rs)"
  by (induction rs rule: rev_induct)
     (simp_all add: groupSlots_Nil groupSlots_snoc slotStep_w lastOption_def noSlots_def)

lemma groupSlots_b:
  "blockRule (groupSlots lib user qType clientIP qName gid rs) =
     lastOption (filter (\<lambda>r. applicable lib user qType clientIP qName gid r
                          \<and> \<not> IsWhitelist r \<and> \<not> Important (Modifiers r)) rs)"
  by (induction rs rule: rev_induct)
     (simp_all add: groupSlots_Nil groupSlots_snoc slotStep_b lastOption_def noSlots_def)

lemma lastOption_filter_None: "filter P xs = [] \<Longrightarrow> lastOption (filter (\<lambda>r. P r \<and> Q r) xs) = None"
  by (simp add: lastOption_def filter_empty_conv)

lemma lastOption_Some_iff: "(lastOption xs = None) = (xs = [])"
  by (simp add: lastOption_def)

lemma lastOption_filter_SomeD:
  "lastOption (filter P xs) = Some r \<Longrightarrow> P r \<and> r \<in> set xs"
proof -
  assume a: "lastOption (filter P xs) = Some r"
  then have ne: "filter P xs \<noteq> []" and l: "last (filter P xs) = r"
    by (auto simp: lastOption_def split: if_splits)
  from ne have "last (filter P xs) \<in> set (filter P xs)" by (rule last_in_set)
  with l show ?thesis by auto
qed

lemma evalGroups_skip:
  assumes "\<forall>g\<in>set pre. filter (applicable lib user qType clientIP qName g) cands = []"
  shows "evalGroups lib user qType clientIP qName cands (pre @ rest) =
         evalGroups lib user qType clientIP qName cands rest"
  using assms
proof (induction pre)
  case Nil
  then show ?case by simp
next
  case (Cons g pre)
  then have e: "filter (applicable lib user qType clientIP qName g) cands = []" by simp
  show ?case using Cons
    by (simp add: groupSlots_iw groupSlots_ib groupSlots_w groupSlots_b
        lastOption_filter_None[OF e])
qed

lemma evalGroups_decide:
  fixes lib user qType clientIP qName cands gid
  defines "A \<equiv> filter (applicable lib user qType clientIP qName gid) cands"
  assumes ne: "A \<noteq> []"
  shows "Blocked (evalGroups lib user qType clientIP qName cands (gid # gids)) =
     (if \<exists>r\<in>set A. IsWhitelist r \<and> Important (Modifiers r) then False
      else if \<exists>r\<in>set A. \<not> IsWhitelist r \<and> Important (Modifiers r) then True
      else if \<exists>r\<in>set A. IsWhitelist r then False
      else True)"
proof -
  let ?ap = "applicable lib user qType clientIP qName gid"
  have f: "\<And>Q. (filter (\<lambda>r. ?ap r \<and> Q r) cands = []) = (\<not> (\<exists>r\<in>set A. Q r))"
    by (auto simp: A_def filter_empty_conv)
  from ne obtain r0 where r0: "r0 \<in> set A" by (cases A) auto
  show ?thesis
  proof (cases "\<exists>r\<in>set A. IsWhitelist r \<and> Important (Modifiers r)")
    case True
    then have "filter (\<lambda>r. ?ap r \<and> IsWhitelist r \<and> Important (Modifiers r)) cands \<noteq> []"
      using f[of "\<lambda>r. IsWhitelist r \<and> Important (Modifiers r)"] by simp
    then show ?thesis using True
      by (simp add: groupSlots_iw lastOption_def)
  next
    case nIW: False
    then have iw: "filter (\<lambda>r. ?ap r \<and> IsWhitelist r \<and> Important (Modifiers r)) cands = []"
      using f[of "\<lambda>r. IsWhitelist r \<and> Important (Modifiers r)"] by simp
    show ?thesis
    proof (cases "\<exists>r\<in>set A. \<not> IsWhitelist r \<and> Important (Modifiers r)")
      case True
      then have "filter (\<lambda>r. ?ap r \<and> \<not> IsWhitelist r \<and> Important (Modifiers r)) cands \<noteq> []"
        using f[of "\<lambda>r. \<not> IsWhitelist r \<and> Important (Modifiers r)"] by simp
      then show ?thesis using True nIW iw
        by (simp add: groupSlots_iw groupSlots_ib lastOption_def)
    next
      case nIB: False
      then have ib: "filter (\<lambda>r. ?ap r \<and> \<not> IsWhitelist r \<and> Important (Modifiers r)) cands = []"
        using f[of "\<lambda>r. \<not> IsWhitelist r \<and> Important (Modifiers r)"] by simp
      show ?thesis
      proof (cases "\<exists>r\<in>set A. IsWhitelist r")
        case True
        then have "\<exists>r\<in>set A. IsWhitelist r \<and> \<not> Important (Modifiers r)"
          using nIW by blast
        then have "filter (\<lambda>r. ?ap r \<and> IsWhitelist r \<and> \<not> Important (Modifiers r)) cands \<noteq> []"
          using f[of "\<lambda>r. IsWhitelist r \<and> \<not> Important (Modifiers r)"] by simp
        then show ?thesis using True nIW nIB iw ib
          by (simp add: groupSlots_iw groupSlots_ib groupSlots_w lastOption_def)
      next
        case nW: False
        then have w: "filter (\<lambda>r. ?ap r \<and> IsWhitelist r \<and> \<not> Important (Modifiers r)) cands = []"
          using f[of "\<lambda>r. IsWhitelist r \<and> \<not> Important (Modifiers r)"] by blast
        from r0 nW nIB have "\<not> IsWhitelist r0 \<and> \<not> Important (Modifiers r0)" by blast
        with r0 have "\<exists>r\<in>set A. \<not> IsWhitelist r \<and> \<not> Important (Modifiers r)" by blast
        then have "filter (\<lambda>r. ?ap r \<and> \<not> IsWhitelist r \<and> \<not> Important (Modifiers r)) cands \<noteq> []"
          using f[of "\<lambda>r. \<not> IsWhitelist r \<and> \<not> Important (Modifiers r)"] by simp
        then show ?thesis using nW nIW nIB iw ib w
          by (simp add: groupSlots_iw groupSlots_ib groupSlots_w groupSlots_b lastOption_def)
      qed
    qed
  qed
qed

subsection \<open>Evaluating the examples\<close>

lemma HasPrefix_eval: "HasPrefix s p = (take (length p) s = p)"
proof
  assume "HasPrefix s p"
  then show "take (length p) s = p" by (auto simp: HasPrefix_def prefix_def)
next
  assume a: "take (length p) s = p"
  have "s = take (length p) s @ drop (length p) s" by simp
  with a have "s = p @ drop (length p) s" by simp
  then show "HasPrefix s p" unfolding HasPrefix_def prefix_def by blast
qed

lemma HasSuffix_eval: "HasSuffix s p = (length p \<le> length s \<and> drop (length s - length p) s = p)"
proof
  assume "HasSuffix s p"
  then show "length p \<le> length s \<and> drop (length s - length p) s = p"
    by (auto simp: HasSuffix_def suffix_def)
next
  assume a: "length p \<le> length s \<and> drop (length s - length p) s = p"
  have "s = take (length s - length p) s @ drop (length s - length p) s" by simp
  with a have "s = take (length s - length p) s @ p" by simp
  then show "HasSuffix s p" unfolding HasSuffix_def suffix_def by blast
qed

lemma demo_Match: "Match ipv4Lib (userMatcher (demoEngine rs)) ip mac = None"
  by (simp add: Match_def demoEngine_def)

lemma demo_active: "getActiveGroupIDs (demoEngine rs) now ''default_group'' = [1]"
  by (simp add: getActiveGroupIDs_def demoEngine_def IsActive_def)

lemma demo_group: "userGroupOf (demoEngine rs) None = ''default_group''"
  by (simp add: userGroupOf_def demoEngine_def)

lemma demo_allMatches: "allMatchesOf (demoEngine rs) q = SearchTrace (foldl Insert NewDomainTrie rs) q"
  by (simp add: allMatchesOf_def demoEngine_def)

lemma split_ads_example: "Split ''ads.example'' (CHR ''.'') = [''ads'', ''example'']"
  by code_simp

lemma demo_trace2:
  "SearchTrace (foldl Insert NewDomainTrie
      [demoRule ''ads.example'' RuleTypeDistinguish False noModifiers,
       demoRule ''ads.example'' RuleTypeDistinguish True (noModifiers\<lparr>Important := True\<rparr>)])
      ''ads.example'' =
      [demoRule ''ads.example'' RuleTypeDistinguish False noModifiers,
       demoRule ''ads.example'' RuleTypeDistinguish True (noModifiers\<lparr>Important := True\<rparr>)]"
  by (simp add: SearchTrace_def Insert_def NewDomainTrie_def NewTrieNode_def demoRule_def
      split_ads_example TrimSuffix_def HasSuffix_eval)

lemma checkModifiers_plain:
  "Client (Modifiers r) = [] \<Longrightarrow> DNSType (Modifiers r) = [] \<Longrightarrow> DenyAllow (Modifiers r) = []
   \<Longrightarrow> checkModifiers lib r user qType clientIP qName = (\<not> BadFilter (Modifiers r))"
  by (simp add: checkModifiers_def checkClient_def checkDNSType_def checkDenyAllow_def)

subsection \<open>The four-tier priority\<close>

text \<open>
  Claim C1. Let the active groups be \<open>pre @ gid # post\<close>, where no group of \<open>pre\<close> has
  an applicable candidate and \<open>gid\<close> has one. Then \<^verbatim>\<open>Resolve\<close> decides in \<open>gid\<close> by
  the four tiers: an applicable important whitelist rule gives not-blocked; otherwise an
  applicable important block rule gives blocked; otherwise an applicable whitelist rule gives
  not-blocked; otherwise (an applicable block rule is all that is left) blocked.
\<close>

theorem Resolve_four_tier_priority:
  assumes act: "getActiveGroupIDs e now
                  (userGroupOf e (Match lib (userMatcher e) clientIP clientMAC)) = pre @ gid # post"
    and pre: "\<forall>g\<in>set pre. applicableCandidates lib e
                  (Match lib (userMatcher e) clientIP clientMAC) qType clientIP qName g = []"
    and ne: "applicableCandidates lib e
                  (Match lib (userMatcher e) clientIP clientMAC) qType clientIP qName gid \<noteq> []"
  shows "Blocked (Resolve lib e now qName qType clientIP clientMAC) =
     (let A = applicableCandidates lib e
                (Match lib (userMatcher e) clientIP clientMAC) qType clientIP qName gid
      in if \<exists>r\<in>set A. IsWhitelist r \<and> Important (Modifiers r) then False
         else if \<exists>r\<in>set A. \<not> IsWhitelist r \<and> Important (Modifiers r) then True
         else if \<exists>r\<in>set A. IsWhitelist r then False
         else True)"
proof -
  let ?user = "Match lib (userMatcher e) clientIP clientMAC"
  have "Resolve lib e now qName qType clientIP clientMAC =
        evalGroups lib ?user qType clientIP qName (allMatchesOf e qName) (pre @ gid # post)"
    by (simp add: Resolve_def Let_def act)
  also have "\<dots> = evalGroups lib ?user qType clientIP qName (allMatchesOf e qName) (gid # post)"
    using pre by (intro evalGroups_skip) (simp add: applicableCandidates_def)
  finally show ?thesis
    using evalGroups_decide[of lib ?user qType clientIP qName gid "allMatchesOf e qName" post] ne
    by (simp add: applicableCandidates_def Let_def)
qed

theorem Resolve_four_tier_priority_witness:
  "getActiveGroupIDs
     (demoEngine [demoRule ''ads.example'' RuleTypeDistinguish False noModifiers,
        demoRule ''ads.example'' RuleTypeDistinguish True (noModifiers\<lparr>Important := True\<rparr>)])
     demoTime
     (userGroupOf
        (demoEngine [demoRule ''ads.example'' RuleTypeDistinguish False noModifiers,
           demoRule ''ads.example'' RuleTypeDistinguish True (noModifiers\<lparr>Important := True\<rparr>)])
        (Match ipv4Lib (userMatcher
           (demoEngine [demoRule ''ads.example'' RuleTypeDistinguish False noModifiers,
              demoRule ''ads.example'' RuleTypeDistinguish True (noModifiers\<lparr>Important := True\<rparr>)]))
           (Addr4 10 0 0 5) [])) = [] @ 1 # []
   \<and> applicableCandidates ipv4Lib
        (demoEngine [demoRule ''ads.example'' RuleTypeDistinguish False noModifiers,
           demoRule ''ads.example'' RuleTypeDistinguish True (noModifiers\<lparr>Important := True\<rparr>)])
        None 1 (Addr4 10 0 0 5) ''ads.example'' 1 =
        [demoRule ''ads.example'' RuleTypeDistinguish False noModifiers,
         demoRule ''ads.example'' RuleTypeDistinguish True (noModifiers\<lparr>Important := True\<rparr>)]
   \<and> Blocked (Resolve ipv4Lib
        (demoEngine [demoRule ''ads.example'' RuleTypeDistinguish False noModifiers,
           demoRule ''ads.example'' RuleTypeDistinguish True (noModifiers\<lparr>Important := True\<rparr>)])
        demoTime ''ads.example'' 1 (Addr4 10 0 0 5) []) = False"
proof -
  let ?r1 = "demoRule ''ads.example'' RuleTypeDistinguish False noModifiers"
  let ?r2 = "demoRule ''ads.example'' RuleTypeDistinguish True (noModifiers\<lparr>Important := True\<rparr>)"
  let ?e = "demoEngine [?r1, ?r2]"
  have act: "getActiveGroupIDs ?e demoTime
      (userGroupOf ?e (Match ipv4Lib (userMatcher ?e) (Addr4 10 0 0 5) [])) = [] @ 1 # []"
    by (simp add: demo_Match demo_group demo_active)
  have ap1: "applicable ipv4Lib None 1 (Addr4 10 0 0 5) ''ads.example'' 1 ?r1"
    by (simp add: applicable_def checkModifiers_plain demoRule_def noModifiers_def)
  have ap2: "applicable ipv4Lib None 1 (Addr4 10 0 0 5) ''ads.example'' 1 ?r2"
    by (simp add: applicable_def checkModifiers_plain demoRule_def noModifiers_def)
  have cands: "applicableCandidates ipv4Lib ?e None 1 (Addr4 10 0 0 5) ''ads.example'' 1 = [?r1, ?r2]"
    by (simp only: applicableCandidates_def demo_allMatches demo_trace2) (simp add: ap1 ap2)
  have wl: "IsWhitelist ?r2 \<and> Important (Modifiers ?r2)"
    by (simp add: demoRule_def noModifiers_def)
  from Resolve_four_tier_priority[of ?e demoTime ipv4Lib "Addr4 10 0 0 5" "[]" "[]" 1 "[]" 1 "''ads.example''"]
  have "Blocked (Resolve ipv4Lib ?e demoTime ''ads.example'' 1 (Addr4 10 0 0 5) []) = False"
    using act cands wl by (simp add: demo_Match Let_def)
  with act cands show ?thesis by (simp add: demo_Match)
qed

subsection \<open>The rule a decision names\<close>

lemma evalGroups_ruleD:
  "ResRule (evalGroups lib user qType clientIP qName cands gids) = Some r
   \<Longrightarrow> \<exists>g\<in>set gids. applicable lib user qType clientIP qName g r \<and> r \<in> set cands"
proof (induction gids)
  case Nil
  then show ?case by simp
next
  case (Cons g gids)
  let ?s = "groupSlots lib user qType clientIP qName g cands"
  show ?case
  proof (cases "importantWhitelistRule ?s")
    case (Some x)
    with Cons.prems have "x = r" by simp
    with Some show ?thesis
      using lastOption_filter_SomeD[of _ cands r] by (auto simp: groupSlots_iw)
  next
    case iw: None
    show ?thesis
    proof (cases "importantBlockRule ?s")
      case (Some x)
      with Cons.prems iw have "x = r" by simp
      with Some show ?thesis
        using lastOption_filter_SomeD[of _ cands r] by (auto simp: groupSlots_ib)
    next
      case ib: None
      show ?thesis
      proof (cases "whitelistRule ?s")
        case (Some x)
        with Cons.prems iw ib have "x = r" by simp
        with Some show ?thesis
          using lastOption_filter_SomeD[of _ cands r] by (auto simp: groupSlots_w)
      next
        case w: None
        show ?thesis
        proof (cases "blockRule ?s")
          case (Some x)
          with Cons.prems iw ib w have "x = r" by (simp split: if_splits)
          with Some show ?thesis
            using lastOption_filter_SomeD[of _ cands r] by (auto simp: groupSlots_b)
        next
          case None
          with Cons.prems iw ib w
          have "ResRule (evalGroups lib user qType clientIP qName cands gids) = Some r" by simp
          from Cons.IH[OF this] show ?thesis by auto
        qed
      qed
    qed
  qed
qed

lemma Resolve_ruleD:
  assumes "ResRule (Resolve lib e now qName qType clientIP clientMAC) = Some r"
  shows "\<exists>g. applicable lib (Match lib (userMatcher e) clientIP clientMAC) qType clientIP qName g r"
proof -
  from assms have "ResRule (evalGroups lib (Match lib (userMatcher e) clientIP clientMAC) qType
      clientIP qName (allMatchesOf e qName)
      (getActiveGroupIDs e now (userGroupOf e (Match lib (userMatcher e) clientIP clientMAC)))) = Some r"
    by (simp add: Resolve_def Let_def split: if_splits)
  from evalGroups_ruleD[OF this] show ?thesis by blast
qed

lemma evalGroups_block_rewrite:
  "ResRule (evalGroups lib user qType clientIP qName cands gids) = Some r
   \<Longrightarrow> Blocked (evalGroups lib user qType clientIP qName cands gids)
   \<Longrightarrow> \<not> Important (Modifiers r)
   \<Longrightarrow> ResDNSRewrite (evalGroups lib user qType clientIP qName cands gids) = DNSRewrite (Modifiers r)
       \<and> (DNSRewrite (Modifiers r) \<noteq> [] \<longrightarrow>
            Reason (evalGroups lib user qType clientIP qName cands gids) = ''Rewrite'')"
proof (induction gids)
  case Nil
  then show ?case by simp
next
  case (Cons g gids)
  let ?s = "groupSlots lib user qType clientIP qName g cands"
  show ?case
  proof (cases "importantWhitelistRule ?s")
    case (Some x)
    with Cons.prems show ?thesis by simp
  next
    case iw: None
    show ?thesis
    proof (cases "importantBlockRule ?s")
      case (Some x)
      with Cons.prems iw have "x = r" by simp
      with Some have "Important (Modifiers r)"
        using lastOption_filter_SomeD[of _ cands r] by (auto simp: groupSlots_ib)
      with Cons.prems show ?thesis by simp
    next
      case ib: None
      show ?thesis
      proof (cases "whitelistRule ?s")
        case (Some x)
        with Cons.prems iw ib show ?thesis by simp
      next
        case w: None
        show ?thesis
        proof (cases "blockRule ?s")
          case (Some x)
          with Cons.prems iw ib w have "x = r" by (simp split: if_splits)
          with Some iw ib w show ?thesis by simp
        next
          case None
          with Cons.prems iw ib w Cons.IH show ?thesis by simp
        qed
      qed
    qed
  qed
qed

lemma Resolve_block_rewrite:
  assumes "ResRule (Resolve lib e now qName qType clientIP clientMAC) = Some r"
    and "Blocked (Resolve lib e now qName qType clientIP clientMAC)"
    and "\<not> Important (Modifiers r)"
  shows "ResDNSRewrite (Resolve lib e now qName qType clientIP clientMAC) = DNSRewrite (Modifiers r)
       \<and> (DNSRewrite (Modifiers r) \<noteq> [] \<longrightarrow>
            Reason (Resolve lib e now qName qType clientIP clientMAC) = ''Rewrite'')"
proof (cases "getActiveGroupIDs e now (userGroupOf e (Match lib (userMatcher e) clientIP clientMAC)) = []")
  case True
  with assms(1) show ?thesis by (simp add: Resolve_def Let_def)
next
  case False
  then have R: "Resolve lib e now qName qType clientIP clientMAC =
     evalGroups lib (Match lib (userMatcher e) clientIP clientMAC) qType clientIP qName
       (allMatchesOf e qName)
       (getActiveGroupIDs e now (userGroupOf e (Match lib (userMatcher e) clientIP clientMAC)))"
    by (simp add: Resolve_def Let_def)
  from assms show ?thesis unfolding R by (rule evalGroups_block_rewrite)
qed

lemma Resolve_demo:
  "Resolve ipv4Lib (demoEngine rs) now q qType ip mac =
     evalGroups ipv4Lib None qType ip q (SearchTrace (foldl Insert NewDomainTrie rs) q) [1]"
  by (simp add: Resolve_def demo_Match demo_group demo_active demo_allMatches)

subsection \<open>Which rule a slot keeps\<close>

text \<open>
  Claim C4, as the specification states it, says that each of the four slots keeps the
  first applicable rule of its tier in the order of enumeration. The loop assigns the slot
  at every applicable candidate, so the slot holds the last one. In the example the
  candidates of \<^verbatim>\<open>ads.example.com\<close> are \<^verbatim>\<open>||example.com^\<close> and then
  \<^verbatim>\<open>||ads.example.com^$dnsrewrite=1.2.3.4\<close>, both plain block rules of group 1: the first
  applicable one is \<^verbatim>\<open>||example.com^\<close>, the block slot holds the second, and the
  decision is the rewrite of the second.
\<close>

lemma split_example_com: "Split ''example.com'' (CHR ''.'') = [''example'', ''com'']"
  by code_simp
lemma split_ads_example_com: "Split ''ads.example.com'' (CHR ''.'') = [''ads'', ''example'', ''com'']"
  by code_simp

lemma demo_trace_general_specific:
  "SearchTrace (foldl Insert NewDomainTrie
      [demoRule ''example.com'' RuleTypeDistinguish False noModifiers,
       demoRule ''ads.example.com'' RuleTypeDistinguish False (noModifiers\<lparr>DNSRewrite := ''1.2.3.4''\<rparr>)])
      ''ads.example.com'' =
      [demoRule ''example.com'' RuleTypeDistinguish False noModifiers,
       demoRule ''ads.example.com'' RuleTypeDistinguish False (noModifiers\<lparr>DNSRewrite := ''1.2.3.4''\<rparr>)]"
  by (simp add: SearchTrace_def Insert_def NewDomainTrie_def NewTrieNode_def demoRule_def
      split_example_com split_ads_example_com TrimSuffix_def HasSuffix_eval)

theorem first_seen_counterexample:
  "allMatchesOf (demoEngine
      [demoRule ''example.com'' RuleTypeDistinguish False noModifiers,
       demoRule ''ads.example.com'' RuleTypeDistinguish False (noModifiers\<lparr>DNSRewrite := ''1.2.3.4''\<rparr>)])
      ''ads.example.com'' =
      [demoRule ''example.com'' RuleTypeDistinguish False noModifiers,
       demoRule ''ads.example.com'' RuleTypeDistinguish False (noModifiers\<lparr>DNSRewrite := ''1.2.3.4''\<rparr>)]
   \<and> firstOption (filter (\<lambda>r. applicable ipv4Lib None 1 (Addr4 10 0 0 5) ''ads.example.com'' 1 r
                          \<and> \<not> IsWhitelist r \<and> \<not> Important (Modifiers r))
        [demoRule ''example.com'' RuleTypeDistinguish False noModifiers,
         demoRule ''ads.example.com'' RuleTypeDistinguish False (noModifiers\<lparr>DNSRewrite := ''1.2.3.4''\<rparr>)])
      = Some (demoRule ''example.com'' RuleTypeDistinguish False noModifiers)
   \<and> blockRule (groupSlots ipv4Lib None 1 (Addr4 10 0 0 5) ''ads.example.com'' 1
        [demoRule ''example.com'' RuleTypeDistinguish False noModifiers,
         demoRule ''ads.example.com'' RuleTypeDistinguish False (noModifiers\<lparr>DNSRewrite := ''1.2.3.4''\<rparr>)])
      = Some (demoRule ''ads.example.com'' RuleTypeDistinguish False (noModifiers\<lparr>DNSRewrite := ''1.2.3.4''\<rparr>))
   \<and> Resolve ipv4Lib (demoEngine
        [demoRule ''example.com'' RuleTypeDistinguish False noModifiers,
         demoRule ''ads.example.com'' RuleTypeDistinguish False (noModifiers\<lparr>DNSRewrite := ''1.2.3.4''\<rparr>)])
        demoTime ''ads.example.com'' 1 (Addr4 10 0 0 5) []
      = \<lparr>Blocked = True, Reason = ''Rewrite'',
         ResRule = Some (demoRule ''ads.example.com'' RuleTypeDistinguish False (noModifiers\<lparr>DNSRewrite := ''1.2.3.4''\<rparr>)),
         ResUser = None, ResDNSRewrite = ''1.2.3.4''\<rparr>"
proof -
  let ?rA = "demoRule ''example.com'' RuleTypeDistinguish False noModifiers"
  let ?rB = "demoRule ''ads.example.com'' RuleTypeDistinguish False (noModifiers\<lparr>DNSRewrite := ''1.2.3.4''\<rparr>)"
  have apA: "applicable ipv4Lib None 1 (Addr4 10 0 0 5) ''ads.example.com'' 1 ?rA"
    by (simp add: applicable_def checkModifiers_plain demoRule_def noModifiers_def)
  have apB: "applicable ipv4Lib None 1 (Addr4 10 0 0 5) ''ads.example.com'' 1 ?rB"
    by (simp add: applicable_def checkModifiers_plain demoRule_def noModifiers_def)
  have fA: "\<not> IsWhitelist ?rA \<and> \<not> Important (Modifiers ?rA) \<and> \<not> IsWhitelist ?rB \<and> \<not> Important (Modifiers ?rB)
            \<and> DNSRewrite (Modifiers ?rB) = ''1.2.3.4''"
    by (simp add: demoRule_def noModifiers_def)
  have 1: "allMatchesOf (demoEngine [?rA, ?rB]) ''ads.example.com'' = [?rA, ?rB]"
    by (simp only: demo_allMatches demo_trace_general_specific)
  have 2: "firstOption (filter (\<lambda>r. applicable ipv4Lib None 1 (Addr4 10 0 0 5) ''ads.example.com'' 1 r
                          \<and> \<not> IsWhitelist r \<and> \<not> Important (Modifiers r)) [?rA, ?rB]) = Some ?rA"
    using apA apB fA by (simp add: firstOption_def)
  have 3: "blockRule (groupSlots ipv4Lib None 1 (Addr4 10 0 0 5) ''ads.example.com'' 1 [?rA, ?rB]) = Some ?rB"
    using apA apB fA by (simp add: groupSlots_b lastOption_def)
  have iw: "importantWhitelistRule (groupSlots ipv4Lib None 1 (Addr4 10 0 0 5) ''ads.example.com'' 1 [?rA, ?rB]) = None"
    using apA apB fA by (simp add: groupSlots_iw lastOption_def)
  have ib: "importantBlockRule (groupSlots ipv4Lib None 1 (Addr4 10 0 0 5) ''ads.example.com'' 1 [?rA, ?rB]) = None"
    using apA apB fA by (simp add: groupSlots_ib lastOption_def)
  have w: "whitelistRule (groupSlots ipv4Lib None 1 (Addr4 10 0 0 5) ''ads.example.com'' 1 [?rA, ?rB]) = None"
    using apA apB fA by (simp add: groupSlots_w lastOption_def)
  have 4: "Resolve ipv4Lib (demoEngine [?rA, ?rB]) demoTime ''ads.example.com'' 1 (Addr4 10 0 0 5) []
      = \<lparr>Blocked = True, Reason = ''Rewrite'', ResRule = Some ?rB, ResUser = None, ResDNSRewrite = ''1.2.3.4''\<rparr>"
    by (simp only: Resolve_demo demo_trace_general_specific evalGroups.simps Let_def iw ib w 3 option.case fA)
       simp
  from 1 2 3 4 show ?thesis by blast
qed

text \<open>
  Claim C4, amended: each slot of a group holds the last applicable candidate of its tier in
  the order of enumeration (\<open>None\<close> when the tier has no applicable candidate).
\<close>

theorem slots_keep_last_applicable:
  "importantWhitelistRule (groupSlots lib user qType clientIP qName gid allMatches) =
     lastOption (filter (\<lambda>r. applicable lib user qType clientIP qName gid r
                          \<and> IsWhitelist r \<and> Important (Modifiers r)) allMatches)
   \<and> importantBlockRule (groupSlots lib user qType clientIP qName gid allMatches) =
     lastOption (filter (\<lambda>r. applicable lib user qType clientIP qName gid r
                          \<and> \<not> IsWhitelist r \<and> Important (Modifiers r)) allMatches)
   \<and> whitelistRule (groupSlots lib user qType clientIP qName gid allMatches) =
     lastOption (filter (\<lambda>r. applicable lib user qType clientIP qName gid r
                          \<and> IsWhitelist r \<and> \<not> Important (Modifiers r)) allMatches)
   \<and> blockRule (groupSlots lib user qType clientIP qName gid allMatches) =
     lastOption (filter (\<lambda>r. applicable lib user qType clientIP qName gid r
                          \<and> \<not> IsWhitelist r \<and> \<not> Important (Modifiers r)) allMatches)"
  by (simp add: groupSlots_iw groupSlots_ib groupSlots_w groupSlots_b)

subsection \<open>Exact rules\<close>

text \<open>
  Claim C7. A candidate of kind Exact whose pattern differs from the query name (a trailing
  dot stripped) is skipped by the loop of \<^verbatim>\<open>Resolve\<close>, which leaves the slots as they
  are, and it is never the rule of the decision. So an Exact rule matches no strict
  subdomain of its pattern.
\<close>

theorem Exact_rule_needs_equal_name:
  assumes "Type r = RuleTypeExact" and "Pattern r \<noteq> TrimSuffix qName ''.''"
  shows "slotStep lib user qType clientIP qName gid s r = s
       \<and> ResRule (Resolve lib e now qName qType clientIP clientMAC) \<noteq> Some r"
proof
  from assms show "slotStep lib user qType clientIP qName gid s r = s"
    by (simp add: slotStep_def)
next
  show "ResRule (Resolve lib e now qName qType clientIP clientMAC) \<noteq> Some r"
  proof
    assume "ResRule (Resolve lib e now qName qType clientIP clientMAC) = Some r"
    from Resolve_ruleD[OF this] assms show False by (auto simp: applicable_def)
  qed
qed

theorem Exact_rule_needs_equal_name_witness:
  "Type (demoRule ''tracker.example'' RuleTypeExact False noModifiers) = RuleTypeExact
   \<and> Pattern (demoRule ''tracker.example'' RuleTypeExact False noModifiers)
       \<noteq> TrimSuffix ''sub.tracker.example'' ''.''
   \<and> slotStep ipv4Lib None 1 (Addr4 10 0 0 5) ''sub.tracker.example'' 1 noSlots
        (demoRule ''tracker.example'' RuleTypeExact False noModifiers) = noSlots
   \<and> ResRule (Resolve ipv4Lib
        (demoEngine [demoRule ''tracker.example'' RuleTypeExact False noModifiers])
        demoTime ''sub.tracker.example'' 1 (Addr4 10 0 0 5) [])
       \<noteq> Some (demoRule ''tracker.example'' RuleTypeExact False noModifiers)"
proof -
  let ?r = "demoRule ''tracker.example'' RuleTypeExact False noModifiers"
  have t: "Type ?r = RuleTypeExact" by (simp add: demoRule_def)
  have p: "Pattern ?r \<noteq> TrimSuffix ''sub.tracker.example'' ''.''"
    by (simp add: demoRule_def TrimSuffix_def HasSuffix_eval)
  from Exact_rule_needs_equal_name[OF t p] t p show ?thesis by blast
qed

subsection \<open>An important block rule with a rewrite\<close>

text \<open>
  Claim C5 says that a decision by an important block rule carries the rule's
  \<^verbatim>\<open>dnsrewrite\<close> destination, as a decision by a plain block rule does. The code builds
  the result of the important tier without the destination. Here the single rule is
  \<^verbatim>\<open>||redir.example^$dnsrewrite=1.2.3.4,important\<close> and the query is
  \<^verbatim>\<open>redir.example\<close>: the decision is blocked, by that rule, with an empty destination.
\<close>

theorem important_block_drops_rewrite:
  "DNSRewrite (Modifiers (demoRule ''redir.example'' RuleTypeDistinguish False
       (noModifiers\<lparr>DNSRewrite := ''1.2.3.4'', Important := True\<rparr>))) = ''1.2.3.4''
   \<and> Resolve ipv4Lib
       (demoEngine [demoRule ''redir.example'' RuleTypeDistinguish False
          (noModifiers\<lparr>DNSRewrite := ''1.2.3.4'', Important := True\<rparr>)])
       demoTime ''redir.example'' 1 (Addr4 10 0 0 5) []
     = \<lparr>Blocked = True, Reason = ''Important Blocked'',
        ResRule = Some (demoRule ''redir.example'' RuleTypeDistinguish False
          (noModifiers\<lparr>DNSRewrite := ''1.2.3.4'', Important := True\<rparr>)),
        ResUser = None, ResDNSRewrite = []\<rparr>"
proof -
  let ?r = "demoRule ''redir.example'' RuleTypeDistinguish False
       (noModifiers\<lparr>DNSRewrite := ''1.2.3.4'', Important := True\<rparr>)"
  have sp: "Split ''redir.example'' (CHR ''.'') = [''redir'', ''example'']" by code_simp
  have tr: "SearchTrace (foldl Insert NewDomainTrie [?r]) ''redir.example'' = [?r]"
    by (simp add: SearchTrace_def Insert_def NewDomainTrie_def NewTrieNode_def demoRule_def
      sp TrimSuffix_def HasSuffix_eval)
  have ap: "applicable ipv4Lib None 1 (Addr4 10 0 0 5) ''redir.example'' 1 ?r"
    by (simp add: applicable_def checkModifiers_plain demoRule_def noModifiers_def)
  have f: "\<not> IsWhitelist ?r \<and> Important (Modifiers ?r) \<and> DNSRewrite (Modifiers ?r) = ''1.2.3.4''"
    by (simp add: demoRule_def noModifiers_def)
  have iw: "importantWhitelistRule (groupSlots ipv4Lib None 1 (Addr4 10 0 0 5) ''redir.example'' 1 [?r]) = None"
    using ap f by (simp add: groupSlots_iw lastOption_def)
  have ib: "importantBlockRule (groupSlots ipv4Lib None 1 (Addr4 10 0 0 5) ''redir.example'' 1 [?r]) = Some ?r"
    using ap f by (simp add: groupSlots_ib lastOption_def)
  have "Resolve ipv4Lib (demoEngine [?r]) demoTime ''redir.example'' 1 (Addr4 10 0 0 5) []
     = \<lparr>Blocked = True, Reason = ''Important Blocked'', ResRule = Some ?r,
        ResUser = None, ResDNSRewrite = []\<rparr>"
    by (simp only: Resolve_demo tr evalGroups.simps Let_def iw ib option.case)
  with f show ?thesis by blast
qed

subsection \<open>Schedules\<close>

lemma inRanges_iff:
  "inRanges m rs = (\<exists>r\<in>set rs. Start r \<le> m \<and> m \<le> End r)"
  by (induction rs) auto

lemma IsActive_iff:
  "IsActive sm name t =
     (name \<noteq> [] \<and> (\<exists>sch. schedules sm name = Some sch
        \<and> (\<exists>r\<in>set (WeekMap sch (TimeWeekday t)).
              Start r \<le> Hour t * 60 + Minute t \<and> Hour t * 60 + Minute t \<le> End r)))"
  by (auto simp: IsActive_def inRanges_iff Let_def split: option.splits)

lemma activeLoop_set:
  "set (activeLoop e now acc seen ps) =
     set acc \<union> {g. g \<noteq> 0 \<and> \<not> seen g
                  \<and> (\<exists>p\<in>set ps. \<not> IsActive (scheduleMatcher e) (PolicySchedule p) now \<and> gidOf e p = g)}"
proof (induction ps arbitrary: acc seen)
  case Nil
  then show ?case by simp
next
  case (Cons policy ps)
  show ?case
  proof (cases "IsActive (scheduleMatcher e) (PolicySchedule policy) now")
    case True
    then show ?thesis by (simp add: Cons.IH)
  next
    case False
    show ?thesis
    proof (cases "gidOf e policy \<noteq> 0 \<and> \<not> seen (gidOf e policy)")
      case True
      have "activeLoop e now acc seen (policy # ps) =
            activeLoop e now (acc @ [gidOf e policy]) (seen(gidOf e policy := True)) ps"
        using False True by (simp add: gidOf_def Let_def)
      then show ?thesis using False True by (auto simp: Cons.IH)
    next
      case nt: False
      have "activeLoop e now acc seen (policy # ps) = activeLoop e now acc seen ps"
        using False nt by (auto simp: gidOf_def Let_def)
      then show ?thesis using False nt by (auto simp: Cons.IH)
    qed
  qed
qed

text \<open>
  Claim C6, as the specification states it, says that the rule-group id of a policy is
  left out of the active list exactly when the policy's schedule is in its window. The list
  is built from all the policies of the user group, and a second policy may name the same
  rule group: with the policies (\<open>ads\<close>, \<open>evening\<close>) and (\<open>ads\<close>, no schedule), on
  Monday at 20:00 the first policy is in its window and the id 1 of \<open>ads\<close> is in the list
  all the same.
\<close>

theorem suppressed_policy_id_present_counterexample:
  "Policies (hd (UserGroups (cfg overlapEngine))) =
     [\<lparr>RuleGroup = ''ads'', PolicySchedule = ''evening''\<rparr>,
      \<lparr>RuleGroup = ''ads'', PolicySchedule = []\<rparr>]
   \<and> IsActive (scheduleMatcher overlapEngine) ''evening''
        \<lparr>TimeWeekday = Monday, Hour = 20, Minute = 0\<rparr>
   \<and> gidOf overlapEngine \<lparr>RuleGroup = ''ads'', PolicySchedule = ''evening''\<rparr> = 1
   \<and> getActiveGroupIDs overlapEngine \<lparr>TimeWeekday = Monday, Hour = 20, Minute = 0\<rparr>
        ''default_group'' = [1]"
  by (simp add: overlapEngine_def eveningEngine_def eveningMatcher_def gidOf_def
      getActiveGroupIDs_def IsActive_def)

text \<open>
  Claim C6, amended. \<^verbatim>\<open>IsActive\<close> holds exactly when the schedule name is not empty, names
  a configured schedule, and the minute of the day \<open>Hour * 60 + Minute\<close> lies in one of that
  schedule's ranges for the weekday, both ends included; so with an empty name, an unknown
  name or no range for the weekday it is false. A policy for which \<^verbatim>\<open>IsActive\<close> holds
  adds nothing to the active list (the loop passes over it): the list holds the non-zero
  group ids of exactly those policies for which \<^verbatim>\<open>IsActive\<close> is false, so the id of a
  policy in its window is left out unless a policy outside its window names the same rule
  group.
\<close>

theorem schedule_suppresses_policy:
  "IsActive sm name t =
     (name \<noteq> [] \<and> (\<exists>sch. schedules sm name = Some sch
        \<and> (\<exists>r\<in>set (WeekMap sch (TimeWeekday t)).
              Start r \<le> Hour t * 60 + Minute t \<and> Hour t * 60 + Minute t \<le> End r)))
   \<and> (find (\<lambda>ug. UserGroupName ug = userGroupName) (UserGroups (cfg e)) = Some ug \<longrightarrow>
        set (getActiveGroupIDs e t userGroupName) =
          {g. g \<noteq> 0 \<and> (\<exists>p\<in>set (Policies ug).
                 \<not> IsActive (scheduleMatcher e) (PolicySchedule p) t \<and> gidOf e p = g)})
   \<and> (IsActive (scheduleMatcher e) (PolicySchedule policy) t \<longrightarrow>
        activeLoop e t activeIDs seen (policy # ps) = activeLoop e t activeIDs seen ps)"
proof (intro conjI)
  show "IsActive sm name t =
     (name \<noteq> [] \<and> (\<exists>sch. schedules sm name = Some sch
        \<and> (\<exists>r\<in>set (WeekMap sch (TimeWeekday t)).
              Start r \<le> Hour t * 60 + Minute t \<and> Hour t * 60 + Minute t \<le> End r)))"
    by (rule IsActive_iff)
  show "find (\<lambda>ug. UserGroupName ug = userGroupName) (UserGroups (cfg e)) = Some ug \<longrightarrow>
        set (getActiveGroupIDs e t userGroupName) =
          {g. g \<noteq> 0 \<and> (\<exists>p\<in>set (Policies ug).
                 \<not> IsActive (scheduleMatcher e) (PolicySchedule p) t \<and> gidOf e p = g)}"
    by (simp add: getActiveGroupIDs_def activeLoop_set)
  show "IsActive (scheduleMatcher e) (PolicySchedule policy) t \<longrightarrow>
        activeLoop e t activeIDs seen (policy # ps) = activeLoop e t activeIDs seen ps"
    by simp
qed

theorem schedule_suppresses_policy_witness:
  "IsActive eveningMatcher ''evening'' \<lparr>TimeWeekday = Monday, Hour = 20, Minute = 0\<rparr>
   \<and> IsActive eveningMatcher ''evening'' \<lparr>TimeWeekday = Monday, Hour = 18, Minute = 0\<rparr>
   \<and> IsActive eveningMatcher ''evening'' \<lparr>TimeWeekday = Monday, Hour = 23, Minute = 0\<rparr>
   \<and> \<not> IsActive eveningMatcher ''evening'' \<lparr>TimeWeekday = Monday, Hour = 23, Minute = 1\<rparr>
   \<and> \<not> IsActive eveningMatcher ''evening'' \<lparr>TimeWeekday = Monday, Hour = 17, Minute = 59\<rparr>
   \<and> \<not> IsActive eveningMatcher ''evening'' \<lparr>TimeWeekday = Tuesday, Hour = 20, Minute = 0\<rparr>
   \<and> \<not> IsActive eveningMatcher [] \<lparr>TimeWeekday = Monday, Hour = 20, Minute = 0\<rparr>
   \<and> \<not> IsActive eveningMatcher ''night'' \<lparr>TimeWeekday = Monday, Hour = 20, Minute = 0\<rparr>
   \<and> find (\<lambda>ug. UserGroupName ug = ''default_group'') (UserGroups (cfg eveningEngine))
       = Some \<lparr>UserGroupName = ''default_group'',
               Policies = [\<lparr>RuleGroup = ''ads'', PolicySchedule = ''evening''\<rparr>]\<rparr>
   \<and> set (getActiveGroupIDs eveningEngine \<lparr>TimeWeekday = Monday, Hour = 20, Minute = 0\<rparr>
            ''default_group'') = {}
   \<and> set (getActiveGroupIDs eveningEngine \<lparr>TimeWeekday = Monday, Hour = 10, Minute = 0\<rparr>
            ''default_group'') = {1}"
proof -
  let ?ug = "\<lparr>UserGroupName = ''default_group'',
               Policies = [\<lparr>RuleGroup = ''ads'', PolicySchedule = ''evening''\<rparr>]\<rparr>"
  have f: "find (\<lambda>ug. UserGroupName ug = ''default_group'') (UserGroups (cfg eveningEngine)) = Some ?ug"
    by (simp add: eveningEngine_def)
  have sm: "scheduleMatcher eveningEngine = eveningMatcher" by (simp add: eveningEngine_def)
  have g: "gidOf eveningEngine \<lparr>RuleGroup = ''ads'', PolicySchedule = ''evening''\<rparr> = 1"
    by (simp add: gidOf_def eveningEngine_def)
  note th = schedule_suppresses_policy[of eveningMatcher _ _ "''default_group''" eveningEngine ?ug]
  have a: "IsActive eveningMatcher ''evening'' \<lparr>TimeWeekday = Monday, Hour = 20, Minute = 0\<rparr>"
    using th[of "''evening''" "\<lparr>TimeWeekday = Monday, Hour = 20, Minute = 0\<rparr>"]
    by (simp add: eveningMatcher_def)
  have b: "IsActive eveningMatcher ''evening'' \<lparr>TimeWeekday = Monday, Hour = 18, Minute = 0\<rparr>"
    using th[of "''evening''" "\<lparr>TimeWeekday = Monday, Hour = 18, Minute = 0\<rparr>"]
    by (simp add: eveningMatcher_def)
  have c: "IsActive eveningMatcher ''evening'' \<lparr>TimeWeekday = Monday, Hour = 23, Minute = 0\<rparr>"
    using th[of "''evening''" "\<lparr>TimeWeekday = Monday, Hour = 23, Minute = 0\<rparr>"]
    by (simp add: eveningMatcher_def)
  have d: "\<not> IsActive eveningMatcher ''evening'' \<lparr>TimeWeekday = Monday, Hour = 23, Minute = 1\<rparr>"
    using th[of "''evening''" "\<lparr>TimeWeekday = Monday, Hour = 23, Minute = 1\<rparr>"]
    by (simp add: eveningMatcher_def)
  have d': "\<not> IsActive eveningMatcher ''evening'' \<lparr>TimeWeekday = Monday, Hour = 17, Minute = 59\<rparr>"
    using th[of "''evening''" "\<lparr>TimeWeekday = Monday, Hour = 17, Minute = 59\<rparr>"]
    by (simp add: eveningMatcher_def)
  have d'': "\<not> IsActive eveningMatcher ''evening'' \<lparr>TimeWeekday = Monday, Hour = 10, Minute = 0\<rparr>"
    using th[of "''evening''" "\<lparr>TimeWeekday = Monday, Hour = 10, Minute = 0\<rparr>"]
    by (simp add: eveningMatcher_def)
  have e: "\<not> IsActive eveningMatcher ''evening'' \<lparr>TimeWeekday = Tuesday, Hour = 20, Minute = 0\<rparr>"
    using th[of "''evening''" "\<lparr>TimeWeekday = Tuesday, Hour = 20, Minute = 0\<rparr>"]
    by (simp add: eveningMatcher_def)
  have n: "\<not> IsActive eveningMatcher [] \<lparr>TimeWeekday = Monday, Hour = 20, Minute = 0\<rparr>"
    using th[of "[]" "\<lparr>TimeWeekday = Monday, Hour = 20, Minute = 0\<rparr>"] by simp
  have u: "\<not> IsActive eveningMatcher ''night'' \<lparr>TimeWeekday = Monday, Hour = 20, Minute = 0\<rparr>"
    using th[of "''night''" "\<lparr>TimeWeekday = Monday, Hour = 20, Minute = 0\<rparr>"]
    by (simp add: eveningMatcher_def)
  have s1: "set (getActiveGroupIDs eveningEngine \<lparr>TimeWeekday = Monday, Hour = 20, Minute = 0\<rparr>
            ''default_group'') = {}"
    using th[of "''evening''" "\<lparr>TimeWeekday = Monday, Hour = 20, Minute = 0\<rparr>"] f a
    by (simp add: sm)
  have s2: "set (getActiveGroupIDs eveningEngine \<lparr>TimeWeekday = Monday, Hour = 10, Minute = 0\<rparr>
            ''default_group'') = {1}"
    using th[of "''evening''" "\<lparr>TimeWeekday = Monday, Hour = 10, Minute = 0\<rparr>"] f d'' g
    by (auto simp: sm)
  from a b c d d' e n u f s1 s2 show ?thesis by blast
qed

subsection \<open>The trie and Subdomain rules\<close>

lemma Split_nonempty: "Split s c \<noteq> []"
  by (induction s) (auto split: list.splits)

lemma Split_append: "Split (a @ c # b) c = Split a c @ Split b c"
proof (induction a)
  case Nil
  then show ?case by simp
next
  case (Cons x a)
  then show ?case using Split_nonempty[of a c] by (cases "Split a c") auto
qed

lemma joinWith_Split: "joinWith c (Split s c) = s"
proof (induction s)
  case Nil
  then show ?case by simp
next
  case (Cons x s)
  show ?case
  proof (cases "x = c")
    case True
    then show ?thesis using Cons Split_nonempty[of s c] by (cases "Split s c") auto
  next
    case False
    then show ?thesis using Cons Split_nonempty[of s c]
      by (cases "Split s c"; cases "tl (Split s c)") auto
  qed
qed

lemma joinWith_append:
  "xs \<noteq> [] \<Longrightarrow> ys \<noteq> [] \<Longrightarrow> joinWith c (xs @ ys) = joinWith c xs @ c # joinWith c ys"
proof (induction xs rule: joinWith.induct)
  case (1 c)
  then show ?case by simp
next
  case (2 c x)
  then show ?case by (cases ys) auto
next
  case (3 c x y ys')
  then show ?case by simp
qed

lemma suffix_Split_iff:
  "suffix (Split P c) (Split q c) = (q = P \<or> suffix (c # P) q)"
proof
  assume "suffix (Split P c) (Split q c)"
  then obtain xs where xs: "Split q c = xs @ Split P c" by (auto simp: suffix_def)
  show "q = P \<or> suffix (c # P) q"
  proof (cases "xs = []")
    case True
    with xs have "joinWith c (Split q c) = joinWith c (Split P c)" by simp
    then show ?thesis by (simp add: joinWith_Split)
  next
    case False
    from xs have "joinWith c (Split q c) = joinWith c (xs @ Split P c)" by simp
    then have "q = joinWith c xs @ c # P"
      using False Split_nonempty[of P c] by (simp add: joinWith_Split joinWith_append)
    then show ?thesis by (auto simp: suffix_def)
  qed
next
  assume "q = P \<or> suffix (c # P) q"
  then show "suffix (Split P c) (Split q c)"
  proof
    assume "q = P" then show ?thesis by simp
  next
    assume "suffix (c # P) q"
    then obtain a where "q = a @ c # P" by (auto simp: suffix_def)
    then show ?thesis by (simp add: Split_append suffix_def)
  qed
qed

lemma searchFrom_leaf: "searchFrom (TrieNode rs (\<lambda>k. None)) qs = []"
  by (cases qs) auto

lemma collect_insertAt_new:
  "rules (insertAt NewTrieNode ps r) @ searchFrom (insertAt NewTrieNode ps r) qs =
     (if prefix ps qs then [r] else [])"
proof (induction ps arbitrary: qs)
  case Nil
  then show ?case by (simp add: NewTrieNode_def searchFrom_leaf)
next
  case (Cons p ps)
  show ?case
  proof (cases qs)
    case Nil
    then show ?thesis by (simp add: NewTrieNode_def Let_def)
  next
    case (Cons q qs')
    then show ?thesis using Cons.IH[of qs'] by (simp add: NewTrieNode_def Let_def)
  qed
qed

lemma searchFrom_insertAt_new:
  "ps \<noteq> [] \<Longrightarrow> searchFrom (insertAt NewTrieNode ps r) qs = (if prefix ps qs then [r] else [])"
proof -
  assume "ps \<noteq> []"
  then have "rules (insertAt NewTrieNode ps r) = []"
    by (cases ps) (auto simp: NewTrieNode_def Let_def)
  with collect_insertAt_new[of ps r qs] show ?thesis by simp
qed

lemma SearchTrace_single:
  "SearchTrace (Insert NewDomainTrie r) q =
     (if TrimSuffix q ''.'' = Pattern r \<or> HasSuffix (TrimSuffix q ''.'') (''.'' @ Pattern r)
      then [r] else [])"
proof -
  have ne: "rev (Split (Pattern r) (CHR ''.'')) \<noteq> []" by (simp add: Split_nonempty)
  have "prefix (rev (Split (Pattern r) (CHR ''.''))) (rev (Split (TrimSuffix q ''.'') (CHR ''.'')))
        = suffix (Split (Pattern r) (CHR ''.'')) (Split (TrimSuffix q ''.'') (CHR ''.''))"
    by (simp add: suffix_to_prefix)
  then show ?thesis
    using searchFrom_insertAt_new[OF ne, of r "rev (Split (TrimSuffix q ''.'') (CHR ''.''))"]
    by (simp add: SearchTrace_def Insert_def NewDomainTrie_def suffix_Split_iff HasSuffix_def)
qed

lemma evalGroups_no_candidates:
  "evalGroups lib user qType clientIP qName [] gids =
     \<lparr>Blocked = False, Reason = ''Not found'', ResRule = None, ResUser = user,
      ResDNSRewrite = []\<rparr>"
  by (induction gids) (simp_all add: groupSlots_def noSlots_def)

text \<open>
  Claim C2. Let the index hold one Subdomain rule with pattern \<open>P\<close>, without modifiers and
  not a whitelist rule, in a group that is active for the client. Then \<^verbatim>\<open>Resolve\<close>
  reports blocked exactly when the query name, a trailing dot stripped, is \<open>P\<close> or ends with
  \<^verbatim>\<open>"." + P\<close>; and for every other name the trie returns no candidate at all. (The proof
  does not need \<open>P\<close> to be free of \<^verbatim>\<open>*\<close>: the trie compares labels byte by byte.)
\<close>

theorem Subdomain_rule_coverage:
  assumes ty: "Type r = RuleTypeDistinguish"
    and mods: "Modifiers r = noModifiers"
    and wl: "\<not> IsWhitelist r"
    and tr: "trie e = Insert NewDomainTrie r"
    and rx: "regexRules e = []"
    and act: "GroupID r \<in> set (getActiveGroupIDs e now
                (userGroupOf e (Match lib (userMatcher e) clientIP clientMAC)))"
  shows "Blocked (Resolve lib e now q qType clientIP clientMAC) =
           (TrimSuffix q ''.'' = Pattern r \<or> HasSuffix (TrimSuffix q ''.'') (''.'' @ Pattern r))
       \<and> SearchTrace (trie e) q =
           (if TrimSuffix q ''.'' = Pattern r \<or> HasSuffix (TrimSuffix q ''.'') (''.'' @ Pattern r)
            then [r] else [])"
proof -
  let ?user = "Match lib (userMatcher e) clientIP clientMAC"
  let ?cond = "TrimSuffix q ''.'' = Pattern r \<or> HasSuffix (TrimSuffix q ''.'') (''.'' @ Pattern r)"
  let ?active = "getActiveGroupIDs e now (userGroupOf e ?user)"
  have trace: "SearchTrace (trie e) q = (if ?cond then [r] else [])"
    by (simp only: tr SearchTrace_single)
  have cands: "allMatchesOf e q = (if ?cond then [r] else [])"
    by (simp add: allMatchesOf_def rx trace)
  from act have ne: "?active \<noteq> []" by auto
  have res: "Resolve lib e now q qType clientIP clientMAC =
             evalGroups lib ?user qType clientIP q (allMatchesOf e q) ?active"
    using ne by (simp add: Resolve_def Let_def)
  have "Blocked (Resolve lib e now q qType clientIP clientMAC) = ?cond"
  proof (cases ?cond)
    case False
    then show ?thesis by (simp add: res cands evalGroups_no_candidates)
  next
    case True
    from act obtain pre post where sp: "?active = pre @ GroupID r # post" and nin: "GroupID r \<notin> set pre"
      by (auto dest: split_list_first)
    have app: "applicable lib ?user qType clientIP q (GroupID r) r"
      using ty mods by (simp add: applicable_def checkModifiers_plain noModifiers_def)
    have skip: "\<forall>g\<in>set pre. filter (applicable lib ?user qType clientIP q g) [r] = []"
      using nin by (auto simp: applicable_def)
    have "Resolve lib e now q qType clientIP clientMAC =
          evalGroups lib ?user qType clientIP q [r] (GroupID r # post)"
      using True evalGroups_skip[OF skip, of "GroupID r # post"] by (simp add: res cands sp)
    moreover have "Blocked (evalGroups lib ?user qType clientIP q [r] (GroupID r # post)) = True"
      using evalGroups_decide[of lib ?user qType clientIP q "GroupID r" "[r]" post] app wl
      by simp
    ultimately show ?thesis using True by simp
  qed
  with trace show ?thesis by simp
qed

theorem Subdomain_rule_coverage_witness:
  "Blocked (Resolve ipv4Lib (demoEngine [demoRule ''doubleclick.net'' RuleTypeDistinguish False noModifiers])
      demoTime ''ads.doubleclick.net'' 1 (Addr4 10 0 0 5) [])
   \<and> Blocked (Resolve ipv4Lib (demoEngine [demoRule ''doubleclick.net'' RuleTypeDistinguish False noModifiers])
      demoTime ''doubleclick.net.'' 1 (Addr4 10 0 0 5) [])
   \<and> \<not> Blocked (Resolve ipv4Lib (demoEngine [demoRule ''doubleclick.net'' RuleTypeDistinguish False noModifiers])
      demoTime ''notdoubleclick.net'' 1 (Addr4 10 0 0 5) [])
   \<and> SearchTrace (trie (demoEngine [demoRule ''doubleclick.net'' RuleTypeDistinguish False noModifiers]))
        ''notdoubleclick.net'' = []"
proof -
  let ?r = "demoRule ''doubleclick.net'' RuleTypeDistinguish False noModifiers"
  let ?e = "demoEngine [?r]"
  have ty: "Type ?r = RuleTypeDistinguish" and mods: "Modifiers ?r = noModifiers"
    and wl: "\<not> IsWhitelist ?r" by (simp_all add: demoRule_def)
  have tr: "trie ?e = Insert NewDomainTrie ?r" by (simp add: demoEngine_def)
  have rx: "regexRules ?e = []" by (simp add: demoEngine_def)
  have act: "GroupID ?r \<in> set (getActiveGroupIDs ?e demoTime
                (userGroupOf ?e (Match ipv4Lib (userMatcher ?e) (Addr4 10 0 0 5) [])))"
    by (simp add: demo_Match demo_group demo_active demoRule_def)
  note th = Subdomain_rule_coverage[OF ty mods wl tr rx act]
  have p: "Pattern ?r = ''doubleclick.net''" by (simp add: demoRule_def)
  have a: "Blocked (Resolve ipv4Lib ?e demoTime ''ads.doubleclick.net'' 1 (Addr4 10 0 0 5) [])"
    using th[of "''ads.doubleclick.net''" 1] by (simp add: p TrimSuffix_def HasSuffix_eval)
  have b: "Blocked (Resolve ipv4Lib ?e demoTime ''doubleclick.net.'' 1 (Addr4 10 0 0 5) [])"
    using th[of "''doubleclick.net.''" 1] by (simp add: p TrimSuffix_def HasSuffix_eval)
  have c: "\<not> Blocked (Resolve ipv4Lib ?e demoTime ''notdoubleclick.net'' 1 (Addr4 10 0 0 5) [])
           \<and> SearchTrace (trie ?e) ''notdoubleclick.net'' = []"
    using th[of "''notdoubleclick.net''" 1] by (simp add: p TrimSuffix_def HasSuffix_eval)
  from a b c show ?thesis by blast
qed

subsection \<open>The \<^verbatim>\<open>$client\<close> modifier\<close>

lemma anyMatch_iff: "anyMatch f xs = (\<exists>x\<in>set xs. f x)"
  by (induction xs) auto

lemma flatten_nonempty: "raws \<noteq> [] \<Longrightarrow> flatten raws \<noteq> []"
  by (cases raws) (auto simp: flatten_def Split_nonempty)

lemma clientIsMatch_tokenMatches:
  assumes A1: "\<forall>t a. ParseAddr lib t = Some a \<longrightarrow> ParsePrefix lib t = None"
    and A2: "\<forall>a. ParseAddr lib (AddrString lib clientIP) = Some a \<longrightarrow> a = clientIP"
    and A3: "ParsePrefix lib (AddrString lib clientIP) = None"
  shows "clientIsMatch lib user clientIP p =
         tokenMatches lib user clientIP (TrimPrefix (TrimSpace p) ''~'')"
proof -
  let ?t = "TrimPrefix (TrimSpace p) ''~''"
  show ?thesis
  proof (cases "ParseAddr lib ?t")
    case (Some ip)
    with A1 have np: "ParsePrefix lib ?t = None" by blast
    from Some A2 have "?t = AddrString lib clientIP \<Longrightarrow> ip = clientIP" by auto
    with Some np show ?thesis
      by (auto simp: clientIsMatch_def tokenMatches_def Let_def split: option.splits)
  next
    case None
    show ?thesis
    proof (cases "ParsePrefix lib ?t")
      case np: None
      with None show ?thesis
        by (auto simp: clientIsMatch_def tokenMatches_def Let_def split: option.splits)
    next
      case (Some pfx)
      with A3 have "?t \<noteq> AddrString lib clientIP" by auto
      with None Some show ?thesis
        by (auto simp: clientIsMatch_def tokenMatches_def Let_def split: option.splits)
    qed
  qed
qed

lemma LastIndex_None_iff: "(LastIndex s c = None) = (c \<notin> set s)"
  by (induction s) (auto split: option.splits)

lemma Split_covers: "x \<in> set s \<Longrightarrow> x \<noteq> c \<Longrightarrow> \<exists>part\<in>set (Split s c). x \<in> set part"
proof (induction s)
  case Nil
  then show ?case by simp
next
  case (Cons y s)
  obtain w ws where sp: "Split s c = w # ws" using Split_nonempty[of s c] by (cases "Split s c") auto
  show ?case
  proof (cases "y = c")
    case True
    with Cons show ?thesis by auto
  next
    case False
    show ?thesis
    proof (cases "x = y")
      case True
      with False sp show ?thesis by simp
    next
      case nxy: False
      with Cons have "\<exists>part\<in>set (Split s c). x \<in> set part" by simp
      with False sp show ?thesis by auto
    qed
  qed
qed

lemma parseOctet_digits: "parseOctet x = Some n \<Longrightarrow> list_all isDigit x"
  by (simp add: parseOctet_def split: if_splits)

lemma ParseAddr4_parts:
  "ParseAddr4 t = Some a \<Longrightarrow> \<forall>part\<in>set (Split t (CHR ''.'')). list_all isDigit part"
proof -
  assume a: "ParseAddr4 t = Some a"
  then have "\<forall>v\<in>set (map parseOctet (Split t (CHR ''.''))). v \<noteq> None"
    by (auto simp: ParseAddr4_def split: list.splits option.splits)
  then show ?thesis by (auto dest: parseOctet_digits)
qed

lemma slash_not_digit: "\<not> isDigit (CHR ''/'')"
  by (simp add: isDigit_def)

lemma ParseAddr4_no_slash: "ParseAddr4 t = Some a \<Longrightarrow> CHR ''/'' \<notin> set t"
proof
  assume a: "ParseAddr4 t = Some a" and s: "CHR ''/'' \<in> set t"
  from Split_covers[OF s, of "CHR ''.''"] obtain part
    where p: "part \<in> set (Split t (CHR ''.''))" and m: "CHR ''/'' \<in> set part" by auto
  from ParseAddr4_parts[OF a] p have "list_all isDigit part" by blast
  with m have "isDigit (CHR ''/'')" by (auto simp: list_all_iff)
  with slash_not_digit show False by simp
qed

lemma ipv4Lib_addr_not_prefix:
  "\<forall>t a. ParseAddr ipv4Lib t = Some a \<longrightarrow> ParsePrefix ipv4Lib t = None"
proof (intro allI impI)
  fix t a assume "ParseAddr ipv4Lib t = Some a"
  then have "ParseAddr4 t = Some a" by (simp add: ipv4Lib_def)
  then have "LastIndex t (CHR ''/'') = None"
    by (simp add: LastIndex_None_iff ParseAddr4_no_slash)
  then show "ParsePrefix ipv4Lib t = None" by (simp add: ipv4Lib_def ParsePrefix4_def)
qed

lemma ipv4Lib_sel:
  "ParseAddr ipv4Lib = ParseAddr4" "ParsePrefix ipv4Lib = ParsePrefix4"
  "Contains ipv4Lib = Contains4" "AddrString ipv4Lib = AddrString4"
  "IsLoopback ipv4Lib = IsLoopback4" "IsUnspecified ipv4Lib = IsUnspecified4"
  by (simp_all add: ipv4Lib_def)

lemma client_10_0_0_5:
  "\<forall>a. ParseAddr ipv4Lib (AddrString ipv4Lib (Addr4 10 0 0 5)) = Some a \<longrightarrow> a = Addr4 10 0 0 5"
  "ParsePrefix ipv4Lib (AddrString ipv4Lib (Addr4 10 0 0 5)) = None"
proof -
  have s: "AddrString4 (Addr4 10 0 0 5) = ''10.0.0.5''" by code_simp
  have p: "ParseAddr4 ''10.0.0.5'' = Some (Addr4 10 0 0 5)" by code_simp
  have q: "ParsePrefix4 ''10.0.0.5'' = None" by code_simp
  show "\<forall>a. ParseAddr ipv4Lib (AddrString ipv4Lib (Addr4 10 0 0 5)) = Some a \<longrightarrow> a = Addr4 10 0 0 5"
    by (simp only: ipv4Lib_sel s p) simp
  show "ParsePrefix ipv4Lib (AddrString ipv4Lib (Addr4 10 0 0 5)) = None"
    by (simp only: ipv4Lib_sel s q)
qed

text \<open>
  Claim C8, as the specification states it, takes the tokens as \<^verbatim>\<open>Split\<close> returns them.
  The code trims white space around each token before it reads the mode and before it
  compares. The rule \<^verbatim>\<open>||track.example^$client=alice | bob\<close> has the tokens
  \<^verbatim>\<open>"alice "\<close> and \<^verbatim>\<open>" bob"\<close>; for the user \<open>bob\<close> the code lets the rule apply, while
  no token as split equals the name, parses, or equals the client's address.
\<close>

theorem client_tokens_untrimmed_counterexample:
  "flatten (Client (Modifiers
      (demoRule ''track.example'' RuleTypeDistinguish False (noModifiers\<lparr>Client := [''alice | bob'']\<rparr>))))
     = [''alice '', '' bob'']
   \<and> checkModifiers ipv4Lib
      (demoRule ''track.example'' RuleTypeDistinguish False (noModifiers\<lparr>Client := [''alice | bob'']\<rparr>))
      (Some bob) 1 (Addr4 10 0 0 5) ''track.example''
   \<and> \<not> clientRuleApplies ipv4Lib
      (flatten (Client (Modifiers
        (demoRule ''track.example'' RuleTypeDistinguish False (noModifiers\<lparr>Client := [''alice | bob'']\<rparr>)))))
      (Some bob) (Addr4 10 0 0 5)"
proof -
  let ?r = "demoRule ''track.example'' RuleTypeDistinguish False (noModifiers\<lparr>Client := [''alice | bob'']\<rparr>)"
  have r: "Client (Modifiers ?r) = [''alice | bob'']" "\<not> BadFilter (Modifiers ?r)"
      "DNSType (Modifiers ?r) = []" "DenyAllow (Modifiers ?r) = []"
    by (simp_all add: demoRule_def noModifiers_def)
  have f: "flatten [''alice | bob''] = [''alice '', '' bob'']" by code_simp
  have t: "TrimSpace ''alice '' = ''alice''" "TrimSpace '' bob'' = ''bob''" by code_simp+
  have e: "ParseAddr4 ''alice '' = None" "ParsePrefix4 ''alice '' = None"
      "ParseAddr4 '' bob'' = None" "ParsePrefix4 '' bob'' = None"
      "ParseAddr4 ''alice'' = None" "ParsePrefix4 ''alice'' = None"
    by code_simp+
  have s: "AddrString4 (Addr4 10 0 0 5) = ''10.0.0.5''" by code_simp
  have 1: "checkClient ipv4Lib ?r (Some bob) (Addr4 10 0 0 5)"
    by (simp add: checkClient_def r f t clientIsMatch_def HasPrefix_eval TrimPrefix_def
        ipv4Lib_sel e s bob_def)
  have 2: "checkModifiers ipv4Lib ?r (Some bob) 1 (Addr4 10 0 0 5) ''track.example''"
    using 1 by (simp add: checkModifiers_def checkDNSType_def checkDenyAllow_def r)
  have 3: "\<not> clientRuleApplies ipv4Lib [''alice '', '' bob''] (Some bob) (Addr4 10 0 0 5)"
    by (simp add: clientRuleApplies_def tokenMatches_def HasPrefix_eval TrimPrefix_def
        ipv4Lib_sel e s bob_def)
  from 2 3 show ?thesis by (simp add: r f)
qed

text \<open>
  Claim C8, amended: with the tokens flattened by splitting each value on \<^verbatim>\<open>|\<close> and each
  token trimmed of surrounding white space, a rule whose only modifier is \<^verbatim>\<open>$client\<close>
  applies exactly as the mode of the first token says: in exclusion mode when no token
  matches, in inclusion mode when some token does, a leading \<^verbatim>\<open>~\<close> stripped before the
  test. The three assumptions are facts of \<^verbatim>\<open>net/netip\<close>: no string parses both as an
  address and as a prefix, and the textual form of the client's address parses back to that
  address if it parses at all, and never as a prefix.
\<close>

theorem client_modifier_trimmed_tokens:
  assumes A1: "\<forall>t a. ParseAddr lib t = Some a \<longrightarrow> ParsePrefix lib t = None"
    and A2: "\<forall>a. ParseAddr lib (AddrString lib clientIP) = Some a \<longrightarrow> a = clientIP"
    and A3: "ParsePrefix lib (AddrString lib clientIP) = None"
    and cl: "Client (Modifiers r) \<noteq> []"
    and others: "\<not> BadFilter (Modifiers r)" "DNSType (Modifiers r) = []" "DenyAllow (Modifiers r) = []"
  shows "checkModifiers lib r user qType clientIP qName =
         clientRuleApplies lib (map TrimSpace (flatten (Client (Modifiers r)))) user clientIP"
proof -
  let ?targets = "flatten (Client (Modifiers r))"
  from cl have ne: "?targets \<noteq> []" by (rule flatten_nonempty)
  then have hd0: "?targets ! 0 = hd ?targets" by (simp add: hd_conv_nth)
  have hdm: "hd (map TrimSpace ?targets) = TrimSpace (hd ?targets)"
    using ne by (simp add: hd_map)
  have m: "anyMatch (clientIsMatch lib user clientIP) ?targets =
           (\<exists>t\<in>set (map TrimSpace ?targets). tokenMatches lib user clientIP (TrimPrefix t ''~''))"
    by (simp add: anyMatch_iff clientIsMatch_tokenMatches[OF A1 A2 A3])
  have "checkClient lib r user clientIP =
        clientRuleApplies lib (map TrimSpace ?targets) user clientIP"
    using cl ne unfolding checkClient_def clientRuleApplies_def Let_def m hd0 hdm
    by simp
  moreover have "checkModifiers lib r user qType clientIP qName = checkClient lib r user clientIP"
    using others by (simp add: checkModifiers_def checkDNSType_def checkDenyAllow_def)
  ultimately show ?thesis by simp
qed

theorem client_modifier_trimmed_tokens_witness:
  "checkModifiers ipv4Lib
     (demoRule ''track.example'' RuleTypeDistinguish False (noModifiers\<lparr>Client := [''10.0.0.0/24'']\<rparr>))
     None 1 (Addr4 10 0 0 5) ''track.example''
   \<and> \<not> checkModifiers ipv4Lib
     (demoRule ''track.example'' RuleTypeDistinguish False (noModifiers\<lparr>Client := [''10.0.0.0/24'']\<rparr>))
     None 1 (Addr4 192 168 2 5) ''track.example''
   \<and> \<not> checkModifiers ipv4Lib
     (demoRule ''track.example'' RuleTypeDistinguish False (noModifiers\<lparr>Client := [''~bob|~10.0.0.9'']\<rparr>))
     (Some bob) 1 (Addr4 10 0 0 5) ''track.example''
   \<and> checkModifiers ipv4Lib
     (demoRule ''track.example'' RuleTypeDistinguish False (noModifiers\<lparr>Client := [''~bob|~10.0.0.9'']\<rparr>))
     None 1 (Addr4 10 0 0 5) ''track.example''"
proof -
  let ?r = "demoRule ''track.example'' RuleTypeDistinguish False (noModifiers\<lparr>Client := [''10.0.0.0/24'']\<rparr>)"
  let ?x = "demoRule ''track.example'' RuleTypeDistinguish False (noModifiers\<lparr>Client := [''~bob|~10.0.0.9'']\<rparr>)"
  have r: "Client (Modifiers ?r) = [''10.0.0.0/24'']" "\<not> BadFilter (Modifiers ?r)"
      "DNSType (Modifiers ?r) = []" "DenyAllow (Modifiers ?r) = []"
    by (simp_all add: demoRule_def noModifiers_def)
  have x: "Client (Modifiers ?x) = [''~bob|~10.0.0.9'']" "\<not> BadFilter (Modifiers ?x)"
      "DNSType (Modifiers ?x) = []" "DenyAllow (Modifiers ?x) = []"
    by (simp_all add: demoRule_def noModifiers_def)
  have rne: "Client (Modifiers ?r) \<noteq> []" and xne: "Client (Modifiers ?x) \<noteq> []"
    by (simp_all add: r x)
  have c2: "\<forall>a. ParseAddr ipv4Lib (AddrString ipv4Lib (Addr4 192 168 2 5)) = Some a \<longrightarrow> a = Addr4 192 168 2 5"
    and c3: "ParsePrefix ipv4Lib (AddrString ipv4Lib (Addr4 192 168 2 5)) = None"
  proof -
    have s: "AddrString4 (Addr4 192 168 2 5) = ''192.168.2.5''" by code_simp
    have p: "ParseAddr4 ''192.168.2.5'' = Some (Addr4 192 168 2 5)" by code_simp
    have q: "ParsePrefix4 ''192.168.2.5'' = None" by code_simp
    show "\<forall>a. ParseAddr ipv4Lib (AddrString ipv4Lib (Addr4 192 168 2 5)) = Some a \<longrightarrow> a = Addr4 192 168 2 5"
      by (simp only: ipv4Lib_sel s p) simp
    show "ParsePrefix ipv4Lib (AddrString ipv4Lib (Addr4 192 168 2 5)) = None"
      by (simp only: ipv4Lib_sel s q)
  qed
  have t1: "map TrimSpace (flatten [''10.0.0.0/24'']) = [''10.0.0.0/24'']" by code_simp
  have t2: "map TrimSpace (flatten [''~bob|~10.0.0.9'']) = [''~bob'', ''~10.0.0.9'']" by code_simp
  have e1: "ParseAddr4 ''10.0.0.0/24'' = None" by code_simp
  have e2: "ParsePrefix4 ''10.0.0.0/24'' = Some (Addr4 10 0 0 0, 24)" by code_simp
  have e3: "Contains4 (Addr4 10 0 0 0, 24) (Addr4 10 0 0 5)" by simp
  have e4: "\<not> Contains4 (Addr4 10 0 0 0, 24) (Addr4 192 168 2 5)" by simp
  have e5: "AddrString4 (Addr4 10 0 0 5) = ''10.0.0.5''" by code_simp
  have e6: "AddrString4 (Addr4 192 168 2 5) = ''192.168.2.5''" by code_simp
  have e7: "ParseAddr4 ''bob'' = None" "ParsePrefix4 ''bob'' = None"
    "ParseAddr4 ''10.0.0.9'' = Some (Addr4 10 0 0 9)" "ParsePrefix4 ''10.0.0.9'' = None"
    by code_simp+
  have a: "checkModifiers ipv4Lib ?r None 1 (Addr4 10 0 0 5) ''track.example''"
    using client_modifier_trimmed_tokens[OF ipv4Lib_addr_not_prefix client_10_0_0_5 rne r(2-4),
        of None 1 "''track.example''"]
    by (simp add: r t1 clientRuleApplies_def tokenMatches_def HasPrefix_eval TrimPrefix_def
        ipv4Lib_sel e1 e2 e3)
  have b: "\<not> checkModifiers ipv4Lib ?r None 1 (Addr4 192 168 2 5) ''track.example''"
    using client_modifier_trimmed_tokens[OF ipv4Lib_addr_not_prefix c2 c3 rne r(2-4),
        of None 1 "''track.example''"]
    by (simp add: r t1 clientRuleApplies_def tokenMatches_def HasPrefix_eval TrimPrefix_def
        ipv4Lib_sel e1 e2 e4 e6)
  have c: "\<not> checkModifiers ipv4Lib ?x (Some bob) 1 (Addr4 10 0 0 5) ''track.example''"
    using client_modifier_trimmed_tokens[OF ipv4Lib_addr_not_prefix client_10_0_0_5 xne x(2-4),
        of "Some bob" 1 "''track.example''"]
    by (simp add: x t2 clientRuleApplies_def tokenMatches_def HasPrefix_eval TrimPrefix_def
        ipv4Lib_sel bob_def)
  have d: "checkModifiers ipv4Lib ?x None 1 (Addr4 10 0 0 5) ''track.example''"
    using client_modifier_trimmed_tokens[OF ipv4Lib_addr_not_prefix client_10_0_0_5 xne x(2-4),
        of None 1 "''track.example''"]
    by (simp add: x t2 clientRuleApplies_def tokenMatches_def HasPrefix_eval TrimPrefix_def
        ipv4Lib_sel e5 e7)
  from a b c d show ?thesis by blast
qed

subsection \<open>The parser\<close>

lemma ParseRule_comment: "isComment text0 \<Longrightarrow> ParseRule lib text0 = Inr None"
  by (auto simp: ParseRule_def isComment_def Let_def)

lemma ParseRule_stages:
  "\<not> isComment text0 \<Longrightarrow>
   ParseRule lib text0 =
     (case classify lib
        \<lparr>Text = TrimSpace text0, Pattern = bodyOf text0, Type = RuleTypeUnknown,
         IsWhitelist = HasPrefix (TrimSpace text0) ''@@'', Modifiers = modifiersOf text0,
         IP = None, GroupID = 0\<rparr> (bodyOf text0) of
        Inl err \<Rightarrow> Inl err
      | Inr rule3 \<Rightarrow>
          Inr (Some (convertWildcard (rule3\<lparr>Pattern := TrimSuffix (Pattern rule3) ''^''\<rparr>))))"
  by (cases "LastIndex (unmarked text0) (CHR ''$'')")
     (auto simp: ParseRule_def isComment_def Let_def bodyOf_def modifiersOf_def unmarked_def
       parseModifiers_def)

lemma classify_not_ParseError: "classify lib rule text \<noteq> Inl ParseError"
  by (auto simp: classify_def Let_def split: option.splits)

lemma ParseRule_not_ParseError: "ParseRule lib text0 \<noteq> Inl ParseError"
proof (cases "isComment text0")
  case True
  then show ?thesis by (simp add: ParseRule_comment)
next
  case False
  then show ?thesis
    using classify_not_ParseError
    by (auto simp: ParseRule_stages split: sum.splits)
qed

lemma spaceRunes_hd:
  "w \<in> set spaceRunes \<Longrightarrow> w \<noteq> [] \<and> hd w \<noteq> CHR ''!'' \<and> hd w \<noteq> CHR ''#''"
  by (auto simp: spaceRunes_def)

lemma leadingSpace_None_mark:
  "c = CHR ''!'' \<or> c = CHR ''#'' \<Longrightarrow> leadingSpace (c # s) = None"
proof -
  assume c: "c = CHR ''!'' \<or> c = CHR ''#''"
  have "\<And>w. w \<in> set spaceRunes \<Longrightarrow> \<not> prefix w (c # s)"
  proof
    fix w assume w: "w \<in> set spaceRunes" and p: "prefix w (c # s)"
    from spaceRunes_hd[OF w] obtain x xs where wx: "w = x # xs" and "x \<noteq> CHR ''!''" "x \<noteq> CHR ''#''"
      by (cases w) auto
    with p c show False by auto
  qed
  then show ?thesis by (auto simp: leadingSpace_def find_None_iff)
qed

lemma TrimRightSpace_keeps_mark:
  "c = CHR ''!'' \<or> c = CHR ''#'' \<Longrightarrow> s \<noteq> [] \<Longrightarrow> hd s = c
   \<Longrightarrow> TrimRightSpace s \<noteq> [] \<and> hd (TrimRightSpace s) = c"
proof (induction s rule: TrimRightSpace.induct)
  case (1 s)
  show ?case
  proof (cases "trailingSpace s")
    case None
    with 1 show ?thesis by simp
  next
    case (Some w)
    then have win: "w \<in> set spaceRunes" and suf: "suffix w s"
      by (auto simp: trailingSpace_def find_Some_iff)
    from spaceRunes_hd[OF win] have wne: "w \<noteq> []" and hw: "hd w \<noteq> CHR ''!''" "hd w \<noteq> CHR ''#''"
      by auto
    from suf obtain s' where s: "s = s' @ w" by (auto simp: suffix_def)
    have s'ne: "s' \<noteq> []"
    proof
      assume "s' = []"
      with s have "hd s = hd w" by simp
      with "1.prems" hw show False by auto
    qed
    have tk: "take (length s - length w) s = s'" using s by simp
    have hd': "hd s' = c" using s s'ne "1.prems" by (cases s') auto
    have "TrimRightSpace s = TrimRightSpace s'"
      using Some wne tk by (subst TrimRightSpace.simps) simp
    moreover have "TrimRightSpace s' \<noteq> [] \<and> hd (TrimRightSpace s') = c"
      using "1.IH"[OF Some wne "1.prems"(1)] tk s'ne hd' by simp
    ultimately show ?thesis by simp
  qed
qed

lemma TrimSpace_keeps_mark:
  assumes "c = CHR ''!'' \<or> c = CHR ''#''"
  shows "HasPrefix (TrimSpace (c # s)) [c]"
proof -
  have "TrimLeftSpace (c # s) = c # s"
    using leadingSpace_None_mark[OF assms, of s] by (subst TrimLeftSpace.simps) simp
  then have "TrimSpace (c # s) = TrimRightSpace (c # s)" by (simp add: TrimSpace_def)
  moreover from TrimRightSpace_keeps_mark[OF assms, of "c # s"]
  have "TrimRightSpace (c # s) \<noteq> [] \<and> hd (TrimRightSpace (c # s)) = c" by simp
  ultimately show ?thesis
    by (cases "TrimRightSpace (c # s)") (auto simp: HasPrefix_def)
qed

lemma classify_hosts:
  assumes shape: "\<not> (HasPrefix text ''/'' \<and> HasSuffix text ''/'')" "\<not> HasPrefix text ''||''"
    and fields: "length (Fields text) \<ge> 2"
    and ip: "ParseAddr lib (Fields text ! 0) = Some ip"
  shows "classify lib rule text =
     Inr (rule\<lparr>IP := Some ip, Pattern := Fields text ! 1, Type := RuleTypeExact,
               Modifiers := (Modifiers rule)\<lparr>DNSRewrite :=
                 (if \<not> IsLoopback lib ip \<and> \<not> IsUnspecified lib ip then AddrString lib ip
                  else DNSRewrite (Modifiers rule))\<rparr>\<rparr>)"
  using assms by (auto simp: classify_def Let_def)

text \<open>
  Claim C10, as the specification states it, says that \<^verbatim>\<open>ParseRule\<close> fails with a
  \<^verbatim>\<open>ParseError\<close> when the modifier segment is malformed. \<^verbatim>\<open>parseModifiers\<close> rejects
  nothing: a part with an empty key, an empty part and an unknown key are all passed over.
  The line \<^verbatim>\<open>||ads.example^$=x,,\<close> yields a rule, with no modifier set.
\<close>

theorem malformed_modifiers_counterexample:
  "ParseRule ipv4Lib ''||ads.example^$=x,,'' =
     Inr (Some \<lparr>Text = ''||ads.example^$=x,,'', Pattern = ''ads.example'',
                Type = RuleTypeDistinguish, IsWhitelist = False,
                Modifiers = noModifiers, IP = None, GroupID = 0\<rparr>)"
proof -
  let ?l = "''||ads.example^$=x,,''"
  have t: "TrimSpace ?l = ?l" by code_simp
  have nc: "\<not> isComment ?l" by (simp add: isComment_def t HasPrefix_eval)
  have b: "bodyOf ?l = ''||ads.example^''" by code_simp
  have m: "modifiersOf ?l = noModifiers" by code_simp
  show ?thesis
    by (simp add: ParseRule_stages[OF nc] classify_def convertWildcard_def
        t b m TrimSuffix_def HasSuffix_eval HasPrefix_eval noModifiers_def)
qed

text \<open>
  Claim C10, amended: \<^verbatim>\<open>ParseRule\<close> returns no rule and no error for a line that trims
  to the empty string or that begins, before or after trimming, with \<^verbatim>\<open>!\<close> or \<^verbatim>\<open>#\<close>;
  and for no line at all does it return a \<^verbatim>\<open>ParseError\<close>.
\<close>

theorem ParseRule_skips_comments_never_fails:
  "(TrimSpace text0 = [] \<or> HasPrefix (TrimSpace text0) ''!'' \<or> HasPrefix (TrimSpace text0) ''#''
      \<or> HasPrefix text0 ''!'' \<or> HasPrefix text0 ''#''
    \<longrightarrow> ParseRule lib text0 = Inr None)
   \<and> ParseRule lib text0 \<noteq> Inl ParseError"
proof -
  have "ParseRule lib text0 = Inr None"
    if "TrimSpace text0 = [] \<or> HasPrefix (TrimSpace text0) ''!'' \<or> HasPrefix (TrimSpace text0) ''#''
      \<or> HasPrefix text0 ''!'' \<or> HasPrefix text0 ''#''"
  proof -
    have "isComment text0"
    proof (cases "HasPrefix text0 ''!'' \<or> HasPrefix text0 ''#''")
      case True
      then obtain c s where t: "text0 = c # s" and c: "c = CHR ''!'' \<or> c = CHR ''#''"
        by (cases text0) (auto simp: HasPrefix_def)
      from TrimSpace_keeps_mark[OF c, of s] c t show ?thesis
        by (auto simp: isComment_def)
    next
      case False
      with that show ?thesis by (simp add: isComment_def)
    qed
    then show ?thesis by (rule ParseRule_comment)
  qed
  then show ?thesis using ParseRule_not_ParseError by blast
qed

theorem ParseRule_skips_comments_never_fails_witness:
  "ParseRule ipv4Lib ''  ! a comment'' = Inr None
   \<and> ParseRule ipv4Lib ''# 1.2.3.4 host'' = Inr None
   \<and> ParseRule ipv4Lib ''   '' = Inr None
   \<and> ParseRule ipv4Lib ''||ads.example^$=x,,'' \<noteq> Inl ParseError"
proof -
  have t1: "TrimSpace ''  ! a comment'' = ''! a comment''" by code_simp
  have t3: "TrimSpace ''   '' = []" by code_simp
  have a: "ParseRule ipv4Lib ''  ! a comment'' = Inr None"
    using ParseRule_skips_comments_never_fails[of "''  ! a comment''" ipv4Lib]
    by (simp add: t1 HasPrefix_eval)
  have b: "ParseRule ipv4Lib ''# 1.2.3.4 host'' = Inr None"
    using ParseRule_skips_comments_never_fails[of "''# 1.2.3.4 host''" ipv4Lib]
    by (simp add: HasPrefix_eval)
  have c: "ParseRule ipv4Lib ''   '' = Inr None"
    using ParseRule_skips_comments_never_fails[of "''   ''" ipv4Lib]
    by (simp add: t3)
  have d: "ParseRule ipv4Lib ''||ads.example^$=x,,'' \<noteq> Inl ParseError"
    using ParseRule_skips_comments_never_fails[of "''||ads.example^$=x,,''" ipv4Lib]
    by blast
  from a b c d show ?thesis by blast
qed

text \<open>
  Claim C9, as the specification states it, says that a line whose body has at least two
  fields, the first a parseable address, becomes an Exact rule whose pattern is the second
  field. The later steps of \<^verbatim>\<open>ParseRule\<close> still apply to such a rule: a trailing
  \<^verbatim>\<open>^\<close> is cut from the pattern, and a pattern with \<^verbatim>\<open>*\<close> turns the rule into a
  Regex rule. The line \<^verbatim>\<open>1.2.3.4 *.example.com\<close> yields a Regex rule with the pattern
  \<^verbatim>\<open>^.*\.example\.com$\<close>.
\<close>

theorem hosts_line_wildcard_counterexample:
  "Fields ''1.2.3.4 *.example.com'' = [''1.2.3.4'', ''*.example.com'']
   \<and> ParseAddr ipv4Lib ''1.2.3.4'' = Some (Addr4 1 2 3 4)
   \<and> ParseRule ipv4Lib ''1.2.3.4 *.example.com'' =
     Inr (Some \<lparr>Text = ''1.2.3.4 *.example.com'',
                Pattern = ''^.*'' @ [CHR 0x5C] @ ''.example'' @ [CHR 0x5C] @ ''.com$'',
                Type = RuleTypeRegex, IsWhitelist = False,
                Modifiers = noModifiers\<lparr>DNSRewrite := ''1.2.3.4''\<rparr>,
                IP = Some (Addr4 1 2 3 4), GroupID = 0\<rparr>)"
proof -
  let ?l = "''1.2.3.4 *.example.com''"
  have t: "TrimSpace ?l = ?l" by code_simp
  have nc: "\<not> isComment ?l" by (simp add: isComment_def t HasPrefix_eval)
  have b: "bodyOf ?l = ?l" by code_simp
  have m: "modifiersOf ?l = noModifiers" by code_simp
  have f: "Fields ?l = [''1.2.3.4'', ''*.example.com'']" by code_simp
  have p: "ParseAddr4 ''1.2.3.4'' = Some (Addr4 1 2 3 4)" by code_simp
  have s: "AddrString4 (Addr4 1 2 3 4) = ''1.2.3.4''" by code_simp
  have sh: "\<not> (HasPrefix (bodyOf ?l) ''/'' \<and> HasSuffix (bodyOf ?l) ''/'')" "\<not> HasPrefix (bodyOf ?l) ''||''"
    by (simp_all add: b HasPrefix_eval)
  have fl: "length (Fields (bodyOf ?l)) \<ge> 2" by (simp add: b f)
  have ip: "ParseAddr ipv4Lib (Fields (bodyOf ?l) ! 0) = Some (Addr4 1 2 3 4)"
    by (simp only: b f ipv4Lib_sel nth_Cons_0 p)
  have as: "AddrString ipv4Lib (Addr4 1 2 3 4) = ''1.2.3.4''" by (simp only: ipv4Lib_sel s)
  have lo: "\<not> IsLoopback ipv4Lib (Addr4 1 2 3 4) \<and> \<not> IsUnspecified ipv4Lib (Addr4 1 2 3 4)"
    by (simp add: ipv4Lib_sel)
  have q: "ReplaceAll (QuoteMeta ''*.example.com'') [CHR 0x5C, CHR ''*''] ''.*''
           = ''.*'' @ [CHR 0x5C] @ ''.example'' @ [CHR 0x5C] @ ''.com''" by code_simp
  have "ParseRule ipv4Lib ?l =
     Inr (Some \<lparr>Text = ?l,
                Pattern = ''^.*'' @ [CHR 0x5C] @ ''.example'' @ [CHR 0x5C] @ ''.com$'',
                Type = RuleTypeRegex, IsWhitelist = False,
                Modifiers = noModifiers\<lparr>DNSRewrite := ''1.2.3.4''\<rparr>,
                IP = Some (Addr4 1 2 3 4), GroupID = 0\<rparr>)"
    using lo
    by (simp add: ParseRule_stages[OF nc] classify_hosts[OF sh fl ip, unfolded b] convertWildcard_def
        t b m f as specialBytes_def TrimSuffix_def HasSuffix_eval HasPrefix_eval
        del: One_nat_def)
  moreover have "ParseAddr ipv4Lib ''1.2.3.4'' = Some (Addr4 1 2 3 4)"
    by (simp only: ipv4Lib_sel p)
  ultimately show ?thesis using f by blast
qed

text \<open>
  Claim C9, amended. Take a line that is not skipped, whose body is not of the form
  \<^verbatim>\<open>/.../\<close> and does not start with \<^verbatim>\<open>||\<close>, and splits into at least two fields of
  which the first parses as the address \<open>ip\<close>. Then \<^verbatim>\<open>ParseRule\<close> returns a rule that
  records \<open>ip\<close>; its pattern is the second field less one trailing \<^verbatim>\<open>^\<close> and its kind
  Exact, unless that pattern contains \<^verbatim>\<open>*\<close>, when the kind is Regex and the pattern the
  anchored regular expression; and its \<^verbatim>\<open>dnsrewrite\<close> is the textual form of \<open>ip\<close> when
  \<open>ip\<close> is neither loopback nor unspecified, and otherwise what the modifier segment gave
  (empty when it gave nothing). So when \<open>ip\<close> is neither loopback nor unspecified and the
  rule, not marked \<^verbatim>\<open>$important\<close> and indexed under any group id, is the rule by which
  \<^verbatim>\<open>Resolve\<close> blocks a query, the decision carries the textual form of \<open>ip\<close> as its
  rewrite destination (and the reason \<^verbatim>\<open>Rewrite\<close>, that form not being empty): a rewrite
  to that address, not a block without destination.
\<close>

theorem hosts_line_rule:
  assumes nc: "\<not> isComment text0"
    and shape: "\<not> (HasPrefix (bodyOf text0) ''/'' \<and> HasSuffix (bodyOf text0) ''/'')"
               "\<not> HasPrefix (bodyOf text0) ''||''"
    and fields: "length (Fields (bodyOf text0)) \<ge> 2"
    and ip: "ParseAddr lib (Fields (bodyOf text0) ! 0) = Some ip"
  shows "\<exists>rule. ParseRule lib text0 = Inr (Some rule)
     \<and> IP rule = Some ip
     \<and> (if CHR ''*'' \<in> set (TrimSuffix (Fields (bodyOf text0) ! 1) ''^'')
        then Type rule = RuleTypeRegex
             \<and> Pattern rule = ''^'' @ ReplaceAll (QuoteMeta (TrimSuffix (Fields (bodyOf text0) ! 1) ''^''))
                                      [CHR 0x5C, CHR ''*''] ''.*'' @ ''$''
        else Type rule = RuleTypeExact
             \<and> Pattern rule = TrimSuffix (Fields (bodyOf text0) ! 1) ''^'')
     \<and> DNSRewrite (Modifiers rule) =
         (if \<not> IsLoopback lib ip \<and> \<not> IsUnspecified lib ip then AddrString lib ip
          else DNSRewrite (modifiersOf text0))
     \<and> (\<not> IsLoopback lib ip \<and> \<not> IsUnspecified lib ip \<and> \<not> Important (Modifiers rule)
          \<and> Blocked (Resolve lib e now qName qType clientIP clientMAC)
          \<and> ResRule (Resolve lib e now qName qType clientIP clientMAC) = Some (rule\<lparr>GroupID := gid\<rparr>)
        \<longrightarrow> ResDNSRewrite (Resolve lib e now qName qType clientIP clientMAC) = AddrString lib ip
            \<and> (AddrString lib ip \<noteq> [] \<longrightarrow>
                 Reason (Resolve lib e now qName qType clientIP clientMAC) = ''Rewrite''))"
proof -
  let ?c = "classify lib
        \<lparr>Text = TrimSpace text0, Pattern = bodyOf text0, Type = RuleTypeUnknown,
         IsWhitelist = HasPrefix (TrimSpace text0) ''@@'', Modifiers = modifiersOf text0,
         IP = None, GroupID = 0\<rparr> (bodyOf text0)"
  obtain rule where pr: "ParseRule lib text0 = Inr (Some rule)"
    by (simp add: ParseRule_stages[OF nc] classify_hosts[OF shape fields ip])
  have a: "IP rule = Some ip
     \<and> (if CHR ''*'' \<in> set (TrimSuffix (Fields (bodyOf text0) ! 1) ''^'')
        then Type rule = RuleTypeRegex
             \<and> Pattern rule = ''^'' @ ReplaceAll (QuoteMeta (TrimSuffix (Fields (bodyOf text0) ! 1) ''^''))
                                      [CHR 0x5C, CHR ''*''] ''.*'' @ ''$''
        else Type rule = RuleTypeExact
             \<and> Pattern rule = TrimSuffix (Fields (bodyOf text0) ! 1) ''^'')
     \<and> DNSRewrite (Modifiers rule) =
         (if \<not> IsLoopback lib ip \<and> \<not> IsUnspecified lib ip then AddrString lib ip
          else DNSRewrite (modifiersOf text0))"
    using pr
    by (auto simp: ParseRule_stages[OF nc] classify_hosts[OF shape fields ip] convertWildcard_def
      Let_def)
  have b: "ResDNSRewrite (Resolve lib e now qName qType clientIP clientMAC) = AddrString lib ip
            \<and> (AddrString lib ip \<noteq> [] \<longrightarrow>
                 Reason (Resolve lib e now qName qType clientIP clientMAC) = ''Rewrite'')"
    if h: "\<not> IsLoopback lib ip \<and> \<not> IsUnspecified lib ip \<and> \<not> Important (Modifiers rule)
          \<and> Blocked (Resolve lib e now qName qType clientIP clientMAC)
          \<and> ResRule (Resolve lib e now qName qType clientIP clientMAC) = Some (rule\<lparr>GroupID := gid\<rparr>)"
  proof -
    from h a have d: "DNSRewrite (Modifiers (rule\<lparr>GroupID := gid\<rparr>)) = AddrString lib ip" by simp
    from h have ni: "\<not> Important (Modifiers (rule\<lparr>GroupID := gid\<rparr>))" by simp
    from Resolve_block_rewrite[of lib e now qName qType clientIP clientMAC "rule\<lparr>GroupID := gid\<rparr>"] h ni
    show ?thesis unfolding d by blast
  qed
  from pr a b show ?thesis by blast
qed

theorem hosts_line_rule_witness:
  "ParseRule ipv4Lib ''1.2.3.4 redir.example'' =
     Inr (Some \<lparr>Text = ''1.2.3.4 redir.example'', Pattern = ''redir.example'',
                Type = RuleTypeExact, IsWhitelist = False,
                Modifiers = noModifiers\<lparr>DNSRewrite := ''1.2.3.4''\<rparr>,
                IP = Some (Addr4 1 2 3 4), GroupID = 0\<rparr>)
   \<and> Resolve ipv4Lib
       (demoEngine [\<lparr>Text = ''1.2.3.4 redir.example'', Pattern = ''redir.example'',
                Type = RuleTypeExact, IsWhitelist = False,
                Modifiers = noModifiers\<lparr>DNSRewrite := ''1.2.3.4''\<rparr>,
                IP = Some (Addr4 1 2 3 4), GroupID = 1\<rparr>])
       demoTime ''redir.example'' 1 (Addr4 10 0 0 5) []
     = \<lparr>Blocked = True, Reason = ''Rewrite'',
        ResRule = Some \<lparr>Text = ''1.2.3.4 redir.example'', Pattern = ''redir.example'',
                Type = RuleTypeExact, IsWhitelist = False,
                Modifiers = noModifiers\<lparr>DNSRewrite := ''1.2.3.4''\<rparr>,
                IP = Some (Addr4 1 2 3 4), GroupID = 1\<rparr>,
        ResUser = None, ResDNSRewrite = ''1.2.3.4''\<rparr>
   \<and> ParseRule ipv4Lib ''0.0.0.0 tracker.example'' =
     Inr (Some \<lparr>Text = ''0.0.0.0 tracker.example'', Pattern = ''tracker.example'',
                Type = RuleTypeExact, IsWhitelist = False,
                Modifiers = noModifiers,
                IP = Some (Addr4 0 0 0 0), GroupID = 0\<rparr>)"
proof -
  let ?l1 = "''1.2.3.4 redir.example''" and ?l2 = "''0.0.0.0 tracker.example''"
  let ?p1 = "\<lparr>Text = ''1.2.3.4 redir.example'', Pattern = ''redir.example'',
                Type = RuleTypeExact, IsWhitelist = False,
                Modifiers = noModifiers\<lparr>DNSRewrite := ''1.2.3.4''\<rparr>,
                IP = Some (Addr4 1 2 3 4), GroupID = 0\<rparr>"
  let ?g1 = "\<lparr>Text = ''1.2.3.4 redir.example'', Pattern = ''redir.example'',
                Type = RuleTypeExact, IsWhitelist = False,
                Modifiers = noModifiers\<lparr>DNSRewrite := ''1.2.3.4''\<rparr>,
                IP = Some (Addr4 1 2 3 4), GroupID = 1\<rparr>"
  have t1: "TrimSpace ?l1 = ?l1" and t2: "TrimSpace ?l2 = ?l2" by code_simp+
  have nc1: "\<not> isComment ?l1" and nc2: "\<not> isComment ?l2"
    by (simp_all add: isComment_def t1 t2 HasPrefix_eval)
  have b1: "bodyOf ?l1 = ?l1" and b2: "bodyOf ?l2 = ?l2" by code_simp+
  have m1: "modifiersOf ?l1 = noModifiers" and m2: "modifiersOf ?l2 = noModifiers" by code_simp+
  have f1: "Fields ?l1 = [''1.2.3.4'', ''redir.example'']"
    and f2: "Fields ?l2 = [''0.0.0.0'', ''tracker.example'']" by code_simp+
  have p1: "ParseAddr4 ''1.2.3.4'' = Some (Addr4 1 2 3 4)"
    and p2: "ParseAddr4 ''0.0.0.0'' = Some (Addr4 0 0 0 0)" by code_simp+
  have s1: "AddrString4 (Addr4 1 2 3 4) = ''1.2.3.4''" by code_simp
  have sh1: "\<not> (HasPrefix (bodyOf ?l1) ''/'' \<and> HasSuffix (bodyOf ?l1) ''/'')" "\<not> HasPrefix (bodyOf ?l1) ''||''"
    and sh2: "\<not> (HasPrefix (bodyOf ?l2) ''/'' \<and> HasSuffix (bodyOf ?l2) ''/'')" "\<not> HasPrefix (bodyOf ?l2) ''||''"
    by (simp_all add: b1 b2 HasPrefix_eval)
  have fl1: "length (Fields (bodyOf ?l1)) \<ge> 2" and fl2: "length (Fields (bodyOf ?l2)) \<ge> 2"
    by (simp_all add: b1 b2 f1 f2)
  have ip1: "ParseAddr ipv4Lib (Fields (bodyOf ?l1) ! 0) = Some (Addr4 1 2 3 4)"
    by (simp only: b1 f1 ipv4Lib_sel nth_Cons_0 p1)
  have ip2: "ParseAddr ipv4Lib (Fields (bodyOf ?l2) ! 0) = Some (Addr4 0 0 0 0)"
    by (simp only: b2 f2 ipv4Lib_sel nth_Cons_0 p2)
  have lo1: "\<not> IsLoopback ipv4Lib (Addr4 1 2 3 4) \<and> \<not> IsUnspecified ipv4Lib (Addr4 1 2 3 4)"
    by (simp add: ipv4Lib_sel)
  have lo2: "IsUnspecified ipv4Lib (Addr4 0 0 0 0)"
    by (simp add: ipv4Lib_sel)
  have as1: "AddrString ipv4Lib (Addr4 1 2 3 4) = ''1.2.3.4''"
    by (simp only: ipv4Lib_sel s1)
  have e1: "ParseRule ipv4Lib ?l1 = Inr (Some ?p1)"
    using lo1
    by (simp add: ParseRule_stages[OF nc1] classify_hosts[OF sh1 fl1 ip1, unfolded b1]
        convertWildcard_def t1 b1 m1 f1 as1 TrimSuffix_def HasSuffix_eval HasPrefix_eval
        del: One_nat_def)
  have e2: "ParseRule ipv4Lib ?l2 =
     Inr (Some \<lparr>Text = ?l2, Pattern = ''tracker.example'',
                Type = RuleTypeExact, IsWhitelist = False,
                Modifiers = noModifiers,
                IP = Some (Addr4 0 0 0 0), GroupID = 0\<rparr>)"
    using lo2
    by (simp add: ParseRule_stages[OF nc2] classify_hosts[OF sh2 fl2 ip2, unfolded b2]
        convertWildcard_def t2 b2 m2 f2 TrimSuffix_def HasSuffix_eval HasPrefix_eval
        noModifiers_def)
  have g: "?p1\<lparr>GroupID := 1\<rparr> = ?g1" by simp
  have sp: "Split ''redir.example'' (CHR ''.'') = [''redir'', ''example'']" by code_simp
  have tr: "SearchTrace (foldl Insert NewDomainTrie [?g1]) ''redir.example'' = [?g1]"
    by (simp add: SearchTrace_def Insert_def NewDomainTrie_def NewTrieNode_def
      sp TrimSuffix_def HasSuffix_eval del: One_nat_def)
  have ap: "applicable ipv4Lib None 1 (Addr4 10 0 0 5) ''redir.example'' 1 ?g1"
    by (simp add: applicable_def checkModifiers_plain noModifiers_def TrimSuffix_def
        HasSuffix_eval)
  have fl: "\<not> IsWhitelist ?g1 \<and> \<not> Important (Modifiers ?g1)
            \<and> DNSRewrite (Modifiers ?g1) = ''1.2.3.4''"
    by (simp add: noModifiers_def)
  have iw: "importantWhitelistRule (groupSlots ipv4Lib None 1 (Addr4 10 0 0 5) ''redir.example'' 1 [?g1]) = None"
    using ap fl by (simp add: groupSlots_iw lastOption_def)
  have ib: "importantBlockRule (groupSlots ipv4Lib None 1 (Addr4 10 0 0 5) ''redir.example'' 1 [?g1]) = None"
    using ap fl by (simp add: groupSlots_ib lastOption_def)
  have w: "whitelistRule (groupSlots ipv4Lib None 1 (Addr4 10 0 0 5) ''redir.example'' 1 [?g1]) = None"
    using ap fl by (simp add: groupSlots_w lastOption_def)
  have bl: "blockRule (groupSlots ipv4Lib None 1 (Addr4 10 0 0 5) ''redir.example'' 1 [?g1]) = Some ?g1"
    using ap fl by (simp add: groupSlots_b lastOption_def)
  have res: "Resolve ipv4Lib (demoEngine [?g1]) demoTime ''redir.example'' 1 (Addr4 10 0 0 5) []
     = \<lparr>Blocked = True, Reason = ''Rewrite'', ResRule = Some ?g1,
        ResUser = None, ResDNSRewrite = ''1.2.3.4''\<rparr>"
    by (simp only: Resolve_demo tr evalGroups.simps Let_def iw ib w bl option.case fl) simp
  from hosts_line_rule[OF nc1 sh1 fl1 ip1, of "demoEngine [?g1]" demoTime "''redir.example''" 1
        "Addr4 10 0 0 5" "[]" 1]
  obtain r1 where r1: "ParseRule ipv4Lib ?l1 = Inr (Some r1)"
    and imp: "\<not> IsLoopback ipv4Lib (Addr4 1 2 3 4) \<and> \<not> IsUnspecified ipv4Lib (Addr4 1 2 3 4)
          \<and> \<not> Important (Modifiers r1)
          \<and> Blocked (Resolve ipv4Lib (demoEngine [?g1]) demoTime ''redir.example'' 1 (Addr4 10 0 0 5) [])
          \<and> ResRule (Resolve ipv4Lib (demoEngine [?g1]) demoTime ''redir.example'' 1 (Addr4 10 0 0 5) [])
              = Some (r1\<lparr>GroupID := 1\<rparr>)
        \<longrightarrow> ResDNSRewrite (Resolve ipv4Lib (demoEngine [?g1]) demoTime ''redir.example'' 1 (Addr4 10 0 0 5) [])
              = AddrString ipv4Lib (Addr4 1 2 3 4)"
    by blast
  from r1 e1 have r1eq: "r1 = ?p1" by simp
  have "ResDNSRewrite (Resolve ipv4Lib (demoEngine [?g1]) demoTime ''redir.example'' 1 (Addr4 10 0 0 5) [])
        = ''1.2.3.4''"
    using imp lo1 unfolding r1eq g res as1 by (simp add: noModifiers_def)
  with e1 e2 res show ?thesis by blast
qed

subsection \<open>A reload while queries run\<close>

lemma ResolveAt_Resolve:
  "allMatchesAt st qName = allMatchesOf e qName \<Longrightarrow>
   ResolveAt lib e st now qName qType clientIP clientMAC =
   Resolve lib e now qName qType clientIP clientMAC"
  by (simp add: ResolveAt_def Resolve_def Let_def)

lemma shared_jobs: "jobs sharedEngine = [(adsSource, 1), (adsSource, 2)]"
  by (simp add: jobs_def sharedEngine_def)

lemma shared_first_load:
  "ReloadRules sharedEnv sharedEngine NewEngineState =
     \<lparr>objects = [adsLine\<lparr>GroupID := 2\<rparr>], fileRuleCache = [''ads.txt'' \<mapsto> [0]],
      liveTrie = sharedTrie, liveRegexRules = []\<rparr>"
  by (simp add: ReloadRules_def shared_jobs runJobs_def loadSource_def fetchRules_def alloc_def
      sharedEnv_def adsSource_def adsLine_def NewEngineState_def NewBuild_def swap_def
      sharedTrie_def Let_def)

lemma shared_during:
  "duringReload sharedEnv sharedEngine
     \<lparr>objects = [adsLine\<lparr>GroupID := 2\<rparr>], fileRuleCache = [''ads.txt'' \<mapsto> [0]],
      liveTrie = sharedTrie, liveRegexRules = []\<rparr> 1 =
     \<lparr>objects = [adsLine\<lparr>GroupID := 1\<rparr>], fileRuleCache = [''ads.txt'' \<mapsto> [0]],
      liveTrie = sharedTrie, liveRegexRules = []\<rparr>"
  by (simp add: duringReload_def shared_jobs runJobs_def loadSource_def fetchRules_def
      sharedEnv_def adsSource_def adsLine_def NewBuild_def Let_def)

lemma shared_second_load:
  "ReloadRules sharedEnv sharedEngine
     \<lparr>objects = [adsLine\<lparr>GroupID := 2\<rparr>], fileRuleCache = [''ads.txt'' \<mapsto> [0]],
      liveTrie = sharedTrie, liveRegexRules = []\<rparr> =
     \<lparr>objects = [adsLine\<lparr>GroupID := 2\<rparr>], fileRuleCache = [''ads.txt'' \<mapsto> [0]],
      liveTrie = sharedTrie, liveRegexRules = []\<rparr>"
  by (simp add: ReloadRules_def shared_jobs runJobs_def loadSource_def fetchRules_def
      sharedEnv_def adsSource_def adsLine_def NewBuild_def swap_def sharedTrie_def Let_def)

lemma shared_trace: "SearchTracePtr sharedTrie ''ads.example'' = [0, 0]"
  by (simp add: SearchTracePtr_def sharedTrie_def InsertPtr_def NewPtrNode_def split_ads_example
      TrimSuffix_def HasSuffix_eval)

lemma shared_matches:
  "allMatchesAt \<lparr>objects = [r], fileRuleCache = c, liveTrie = sharedTrie, liveRegexRules = []\<rparr>
     ''ads.example'' = [r, r]"
  by (simp add: allMatchesAt_def shared_trace)

lemma shared_active:
  "getActiveGroupIDs sharedEngine now
     (userGroupOf sharedEngine (Match ipv4Lib (userMatcher sharedEngine) ip mac)) = [2]"
  by (simp add: Match_def userGroupOf_def getActiveGroupIDs_def sharedEngine_def IsActive_def)

lemma shared_ResolveAt:
  "ResolveAt ipv4Lib sharedEngine
     \<lparr>objects = [r], fileRuleCache = c, liveTrie = sharedTrie, liveRegexRules = []\<rparr>
     now ''ads.example'' qType ip mac =
   evalGroups ipv4Lib (Match ipv4Lib (userMatcher sharedEngine) ip mac) qType ip ''ads.example''
     [r, r] [2]"
  by (simp only: ResolveAt_def Let_def shared_active shared_matches) simp

lemma shared_blocked:
  "Blocked (evalGroups ipv4Lib user qType ip ''ads.example''
      [adsLine\<lparr>GroupID := g\<rparr>, adsLine\<lparr>GroupID := g\<rparr>] [2]) = (g = 2)"
proof (cases "g = 2")
  case True
  have ap: "applicable ipv4Lib user qType ip ''ads.example'' 2 (adsLine\<lparr>GroupID := 2\<rparr>)"
    by (simp add: applicable_def checkModifiers_plain adsLine_def noModifiers_def)
  have "filter (applicable ipv4Lib user qType ip ''ads.example'' 2)
          [adsLine\<lparr>GroupID := 2\<rparr>, adsLine\<lparr>GroupID := 2\<rparr>] \<noteq> []"
    using ap by simp
  from evalGroups_decide[OF this, of "[]"] True show ?thesis
    by (simp add: adsLine_def noModifiers_def)
next
  case False
  have "\<forall>g'\<in>set [2]. filter (applicable ipv4Lib user qType ip ''ads.example'' g')
          [adsLine\<lparr>GroupID := g\<rparr>, adsLine\<lparr>GroupID := g\<rparr>] = []"
    using False by (simp add: applicable_def)
  from evalGroups_skip[OF this, of "[]"] False show ?thesis by simp
qed

text \<open>
  Claim C3 says that a query running during a reload sees the decision of the index before
  the reload or that of the index after it, never a blend such as a rule carrying a group
  id from a reload only partly done. The code swaps the index at once, but the rule objects
  of a cached file are the objects the live index serves, and the reload writes the group id
  into them before the swap. In the example the first load leaves the rule with the id 2 of
  \<open>kids\<close>, and \<^verbatim>\<open>ads.example\<close> is blocked. In the next reload, when the goroutine of
  \<open>base\<close> has run and that of \<open>kids\<close> has not, the live index serves the rule with the
  id 1, and the query is not blocked; once the reload is over, it is blocked again.
\<close>

theorem reload_blends_group_id:
  "map GroupID (allMatchesAt (ReloadRules sharedEnv sharedEngine NewEngineState) ''ads.example'')
     = [2, 2]
   \<and> Blocked (ResolveAt ipv4Lib sharedEngine
        (ReloadRules sharedEnv sharedEngine NewEngineState)
        demoTime ''ads.example'' 1 (Addr4 10 0 0 5) [])
   \<and> map GroupID (allMatchesAt
        (duringReload sharedEnv sharedEngine (ReloadRules sharedEnv sharedEngine NewEngineState) 1)
        ''ads.example'') = [1, 1]
   \<and> \<not> Blocked (ResolveAt ipv4Lib sharedEngine
        (duringReload sharedEnv sharedEngine (ReloadRules sharedEnv sharedEngine NewEngineState) 1)
        demoTime ''ads.example'' 1 (Addr4 10 0 0 5) [])
   \<and> map GroupID (allMatchesAt
        (ReloadRules sharedEnv sharedEngine (ReloadRules sharedEnv sharedEngine NewEngineState))
        ''ads.example'') = [2, 2]
   \<and> Blocked (ResolveAt ipv4Lib sharedEngine
        (ReloadRules sharedEnv sharedEngine (ReloadRules sharedEnv sharedEngine NewEngineState))
        demoTime ''ads.example'' 1 (Addr4 10 0 0 5) [])"
  by (simp only: shared_first_load shared_during shared_second_load shared_matches
      shared_ResolveAt shared_blocked) simp

subsection \<open>The rules of the examples, as lines of a rule file\<close>

text \<open>
  The rules of the examples above are what \<^verbatim>\<open>ParseRule\<close> makes of these lines, up to the
  field \<open>Text\<close>, which \<^verbatim>\<open>Resolve\<close> never reads, and the group id, which
  \<^verbatim>\<open>ReloadRules\<close> writes when it indexes the rule.
\<close>

lemma line_important_rewrite:
  "ParseRule ipv4Lib ''||redir.example^$dnsrewrite=1.2.3.4,important'' =
     Inr (Some \<lparr>Text = ''||redir.example^$dnsrewrite=1.2.3.4,important'',
                Pattern = ''redir.example'', Type = RuleTypeDistinguish, IsWhitelist = False,
                Modifiers = noModifiers\<lparr>DNSRewrite := ''1.2.3.4'', Important := True\<rparr>,
                IP = None, GroupID = 0\<rparr>)"
proof -
  let ?l = "''||redir.example^$dnsrewrite=1.2.3.4,important''"
  have t: "TrimSpace ?l = ?l" by code_simp
  have nc: "\<not> isComment ?l" by (simp add: isComment_def t HasPrefix_eval)
  have b: "bodyOf ?l = ''||redir.example^''" by code_simp
  have u: "unmarked ?l = ?l" by code_simp
  have i: "LastIndex ?l (CHR ''$'') = Some 16" by code_simp
  have s: "Split ''dnsrewrite=1.2.3.4,important'' (CHR '','') = [''dnsrewrite=1.2.3.4'', ''important'']"
    by code_simp
  have m1: "parseModifier noModifiers ''dnsrewrite=1.2.3.4'' = noModifiers\<lparr>DNSRewrite := ''1.2.3.4''\<rparr>"
    by code_simp
  have k: "SplitN2 ''important'' (CHR ''='') = [''important'']" by code_simp
  have k': "TrimSpace ''important'' = ''important''" by code_simp
  have m2: "parseModifier (noModifiers\<lparr>DNSRewrite := ''1.2.3.4''\<rparr>) ''important''
            = noModifiers\<lparr>DNSRewrite := ''1.2.3.4'', Important := True\<rparr>"
    unfolding parseModifier_def k Let_def by (simp add: k')
  have m: "modifiersOf ?l = noModifiers\<lparr>DNSRewrite := ''1.2.3.4'', Important := True\<rparr>"
    by (simp add: modifiersOf_def u i s m1 m2)
  show ?thesis
    by (simp add: ParseRule_stages[OF nc] classify_def convertWildcard_def
        t b m TrimSuffix_def HasSuffix_eval HasPrefix_eval noModifiers_def)
qed

lemma line_client_tokens:
  "ParseRule ipv4Lib ''||track.example^$client=alice | bob'' =
     Inr (Some \<lparr>Text = ''||track.example^$client=alice | bob'',
                Pattern = ''track.example'', Type = RuleTypeDistinguish, IsWhitelist = False,
                Modifiers = noModifiers\<lparr>Client := [''alice | bob'']\<rparr>,
                IP = None, GroupID = 0\<rparr>)"
proof -
  let ?l = "''||track.example^$client=alice | bob''"
  have t: "TrimSpace ?l = ?l" by code_simp
  have nc: "\<not> isComment ?l" by (simp add: isComment_def t HasPrefix_eval)
  have b: "bodyOf ?l = ''||track.example^''" by code_simp
  have m: "modifiersOf ?l = noModifiers\<lparr>Client := [''alice | bob'']\<rparr>"
    by code_simp
  show ?thesis
    by (simp add: ParseRule_stages[OF nc] classify_def convertWildcard_def
        t b m TrimSuffix_def HasSuffix_eval HasPrefix_eval noModifiers_def)
qed

lemma line_subdomain_rewrite:
  "ParseRule ipv4Lib ''||ads.example.com^$dnsrewrite=1.2.3.4'' =
     Inr (Some \<lparr>Text = ''||ads.example.com^$dnsrewrite=1.2.3.4'',
                Pattern = ''ads.example.com'', Type = RuleTypeDistinguish, IsWhitelist = False,
                Modifiers = noModifiers\<lparr>DNSRewrite := ''1.2.3.4''\<rparr>,
                IP = None, GroupID = 0\<rparr>)"
proof -
  let ?l = "''||ads.example.com^$dnsrewrite=1.2.3.4''"
  have t: "TrimSpace ?l = ?l" by code_simp
  have nc: "\<not> isComment ?l" by (simp add: isComment_def t HasPrefix_eval)
  have b: "bodyOf ?l = ''||ads.example.com^''" by code_simp
  have m: "modifiersOf ?l = noModifiers\<lparr>DNSRewrite := ''1.2.3.4''\<rparr>"
    by code_simp
  show ?thesis
    by (simp add: ParseRule_stages[OF nc] classify_def convertWildcard_def
        t b m TrimSuffix_def HasSuffix_eval HasPrefix_eval noModifiers_def)
qed

lemma line_ads_example: "ParseRule ipv4Lib ''||ads.example^'' = Inr (Some adsLine)"
proof -
  let ?l = "''||ads.example^''"
  have t: "TrimSpace ?l = ?l" by code_simp
  have nc: "\<not> isComment ?l" by (simp add: isComment_def t HasPrefix_eval)
  have b: "bodyOf ?l = ?l" by code_simp
  have m: "modifiersOf ?l = noModifiers" by code_simp
  show ?thesis
    by (simp add: ParseRule_stages[OF nc] classify_def convertWildcard_def adsLine_def
        t b m TrimSuffix_def HasSuffix_eval HasPrefix_eval noModifiers_def)
qed

text \<open>The one line on which \<^verbatim>\<open>ParseRule\<close> neither returns a rule nor skips: the body
  \<^verbatim>\<open>/\<close> passes both tests of the regular-expression branch, and the slice
  \<^verbatim>\<open>text[1 : len(text)-1]\<close> is out of bounds.\<close>

lemma line_slash_panics: "ParseRule ipv4Lib ''/'' = Inl SliceBoundsPanic"
proof -
  have t: "TrimSpace ''/'' = ''/''" by code_simp
  have nc: "\<not> isComment ''/''" by (simp add: isComment_def t HasPrefix_eval)
  have b: "bodyOf ''/'' = ''/''" by code_simp
  show ?thesis
    by (simp add: ParseRule_stages[OF nc] classify_def b HasSuffix_eval HasPrefix_eval)
qed

end
